theory Spec2Isabelle
  imports Main "HOL-Library.Word"
begin

unbundle bit_operations_syntax

section \<open>Python values: bytes, bytearray, struct\<close>

text \<open>
  The experiments assemble x86-64 machine code by hand into a Python \<open>bytearray\<close>,
  copy it into an anonymous \<open>mmap\<close> region and call the region through a
  \<open>ctypes\<close> function pointer. A byte is an \<open>8 word\<close>, a \<open>bytes\<close> or
  \<open>bytearray\<close> value a list of bytes, a Python integer an \<open>int\<close>. Every
  way a script can fail is a value of \<open>failure\<close>: the Python exceptions its
  library calls raise (\<open>ValueError\<close>, \<open>IndexError\<close>, \<open>struct.error\<close>,
  \<open>OSError\<close>), the processor leaving the modelled instruction set or the region
  (\<open>Fault\<close>, a crash of the process), and generated code that has not returned when
  the fuel of the model is used up (\<open>OutOfFuel\<close>).
\<close>

type_synonym byte = "8 word"
type_synonym u32 = "32 word"

datatype failure = ValueError | IndexError | StructError | OSError | Fault | OutOfFuel

definition and_then :: "failure + 'a \<Rightarrow> ('a \<Rightarrow> failure + 'b) \<Rightarrow> failure + 'b" where
  "and_then m f = (case m of Inl e \<Rightarrow> Inl e | Inr x \<Rightarrow> f x)"

text \<open>
  \<open>bytearray.extend(list_of_ints)\<close>: every item must lie in \<open>range(256)\<close>,
  otherwise \<open>ValueError\<close> is raised and the array is unchanged.
\<close>

definition bytearray_extend :: "byte list \<Rightarrow> int list \<Rightarrow> failure + byte list" where
  "bytearray_extend code xs =
     (if list_all (\<lambda>x. 0 \<le> x \<and> x < 256) xs then Inr (code @ map word_of_int xs)
      else Inl ValueError)"

text \<open>
  \<open>code[i] = v\<close> on a bytearray: the value is checked first, a value outside
  \<open>range(256)\<close> raises \<open>ValueError\<close>; then a negative index counts from the end
  and an index out of range raises \<open>IndexError\<close>.
\<close>

definition bytearray_setitem :: "byte list \<Rightarrow> int \<Rightarrow> int \<Rightarrow> failure + byte list" where
  "bytearray_setitem code i v =
     (let n = int (length code); j = (if i < 0 then n + i else i)
      in if \<not> (0 \<le> v \<and> v < 256) then Inl ValueError
         else if \<not> (0 \<le> j \<and> j < n) then Inl IndexError
         else Inr (code[nat j := word_of_int v]))"

text \<open>
  \<open>struct.pack('<I', v)\<close>: four bytes, least significant first;
  \<open>struct.error\<close> unless \<open>0 \<le> v < 2 ** 32\<close>.
\<close>

definition le_bytes32 :: "int \<Rightarrow> byte list" where
  "le_bytes32 v =
     [word_of_int v, word_of_int (v div 2 ^ 8),
      word_of_int (v div 2 ^ 16), word_of_int (v div 2 ^ 24)]"

definition struct_pack_I :: "int \<Rightarrow> failure + byte list" where
  "struct_pack_I v =
     (if 0 \<le> v \<and> v < 2 ^ 32 then Inr (le_bytes32 v) else Inl StructError)"

section \<open>Anonymous memory maps\<close>

text \<open>
  \<open>mmap.mmap(-1, length, prot=..., flags=...)\<close>: a region of \<open>length\<close> zero
  bytes with a file position, the protection bits and the mapping flags it was
  created with. The operating system refuses a mapping of length 0. The constants are
  those of Linux on x86-64; the scripts' own comment gives
  \<open>PROT_READ | PROT_WRITE | PROT_EXEC = 7\<close>.
\<close>

definition PROT_READ :: int where "PROT_READ = 1"
definition PROT_WRITE :: int where "PROT_WRITE = 2"
definition PROT_EXEC :: int where "PROT_EXEC = 4"
definition MAP_PRIVATE :: int where "MAP_PRIVATE = 2"
definition MAP_ANONYMOUS :: int where "MAP_ANONYMOUS = 32"

record mmap =
  data :: "byte list"
  pos :: nat
  prot :: int
  flags :: int

definition mmap_mmap :: "nat \<Rightarrow> int \<Rightarrow> int \<Rightarrow> failure + mmap" where
  "mmap_mmap len pr fl =
     (if len = 0 then Inl OSError
      else Inr \<lparr>data = replicate len 0, pos = 0, prot = pr, flags = fl\<rparr>)"

definition is_readable :: "mmap \<Rightarrow> bool" where
  "is_readable m = (prot m AND PROT_READ \<noteq> 0)"

definition is_writable :: "mmap \<Rightarrow> bool" where
  "is_writable m = (prot m AND PROT_WRITE \<noteq> 0)"

definition is_executable :: "mmap \<Rightarrow> bool" where
  "is_executable m = (prot m AND PROT_EXEC \<noteq> 0)"

definition is_private :: "mmap \<Rightarrow> bool" where
  "is_private m = (flags m AND MAP_PRIVATE \<noteq> 0)"

definition is_anonymous :: "mmap \<Rightarrow> bool" where
  "is_anonymous m = (flags m AND MAP_ANONYMOUS \<noteq> 0)"

text \<open>
  \<open>mmap.write(bytes)\<close> copies the bytes to the current position and advances it;
  it raises \<open>ValueError\<close> (``data out of range'') when they do not fit between the
  position and the end of the region, and then writes nothing.
\<close>

definition mmap_write :: "mmap \<Rightarrow> byte list \<Rightarrow> failure + mmap" where
  "mmap_write m bs =
     (if length (data m) < pos m \<or> length (data m) - pos m < length bs then Inl ValueError
      else Inr (m\<lparr>data := take (pos m) (data m) @ bs @ drop (pos m + length bs) (data m),
                   pos := pos m + length bs\<rparr>))"

text \<open>\<open>mmap.seek(p)\<close>: \<open>ValueError\<close> unless \<open>0 \<le> p \<le> size\<close>.\<close>

definition mmap_seek :: "mmap \<Rightarrow> int \<Rightarrow> failure + mmap" where
  "mmap_seek m p =
     (if 0 \<le> p \<and> p \<le> int (length (data m)) then Inr (m\<lparr>pos := nat p\<rparr>)
      else Inl ValueError)"

text \<open>
  \<open>mmap.read(n)\<close>: the bytes from the position up to \<open>n\<close> of them (fewer at the
  end of the region), advancing the position.
\<close>

definition mmap_read :: "mmap \<Rightarrow> nat \<Rightarrow> byte list \<times> mmap" where
  "mmap_read m n =
     (let bs = take n (drop (pos m) (data m))
      in (bs, m\<lparr>pos := pos m + length bs\<rparr>))"

section \<open>The processor: the x86-64 instructions the routines use\<close>

text \<open>
  The generated routines use ten instruction forms, all with 32-bit operands and
  register-direct addressing. The model keeps the eight 32-bit general registers
  (numbered as in the ModRM byte: 0 eax, 1 ecx, 2 edx, 3 ebx, 4 esp, 5 ebp, 6 esi,
  7 edi), the three flags that \<open>jle\<close> reads, and the instruction pointer as an
  offset into the region. A routine never touches the stack before \<open>ret\<close>, so
  \<open>ret\<close> hands control back to the caller.
\<close>

record cpu =
  eax :: u32
  ecx :: u32
  edx :: u32
  ebx :: u32
  esp :: u32
  ebp :: u32
  esi :: u32
  edi :: u32
  ZF :: bool
  SF :: bool
  OF :: bool
  ip :: nat

definition get_reg :: "cpu \<Rightarrow> nat \<Rightarrow> u32" where
  "get_reg s r =
     (if r = 0 then eax s else if r = 1 then ecx s else if r = 2 then edx s
      else if r = 3 then ebx s else if r = 4 then esp s else if r = 5 then ebp s
      else if r = 6 then esi s else edi s)"

definition set_reg :: "nat \<Rightarrow> u32 \<Rightarrow> cpu \<Rightarrow> cpu" where
  "set_reg r v s =
     (if r = 0 then s\<lparr>eax := v\<rparr> else if r = 1 then s\<lparr>ecx := v\<rparr>
      else if r = 2 then s\<lparr>edx := v\<rparr> else if r = 3 then s\<lparr>ebx := v\<rparr>
      else if r = 4 then s\<lparr>esp := v\<rparr> else if r = 5 then s\<lparr>ebp := v\<rparr>
      else if r = 6 then s\<lparr>esi := v\<rparr> else s\<lparr>edi := v\<rparr>)"

text \<open>
  Flags of a subtraction \<open>a - b\<close> (\<open>cmp\<close>), of an addition (\<open>add\<close>,
  \<open>inc\<close>) and of a bitwise result (\<open>xor\<close>): ZF is set when the 32-bit result is
  zero, SF is its sign bit, OF is set when the signed result does not fit in 32 bits.
\<close>

definition sub_flags :: "u32 \<Rightarrow> u32 \<Rightarrow> cpu \<Rightarrow> cpu" where
  "sub_flags a b s =
     s\<lparr>ZF := (a - b = 0), SF := (sint (a - b) < 0), OF := (sint (a - b) \<noteq> sint a - sint b)\<rparr>"

definition add_flags :: "u32 \<Rightarrow> u32 \<Rightarrow> cpu \<Rightarrow> cpu" where
  "add_flags a b s =
     s\<lparr>ZF := (a + b = 0), SF := (sint (a + b) < 0), OF := (sint (a + b) \<noteq> sint a + sint b)\<rparr>"

definition logic_flags :: "u32 \<Rightarrow> cpu \<Rightarrow> cpu" where
  "logic_flags r s = s\<lparr>ZF := (r = 0), SF := (sint r < 0), OF := False\<rparr>"

text \<open>
  \<open>imul r32, r/m32\<close> keeps the low 32 bits of the product and sets OF when the
  signed product does not fit; the architecture leaves ZF and SF undefined, the model
  leaves them as they were.
\<close>

definition imul_flags :: "u32 \<Rightarrow> u32 \<Rightarrow> cpu \<Rightarrow> cpu" where
  "imul_flags a b s = s\<lparr>OF := (sint (a * b) \<noteq> sint a * sint b)\<rparr>"

definition fetch :: "byte list \<Rightarrow> nat \<Rightarrow> byte option" where
  "fetch mem a = (if a < length mem then Some (mem ! a) else None)"

text \<open>A 32-bit immediate is stored least significant byte first.\<close>

definition imm32 :: "byte \<Rightarrow> byte \<Rightarrow> byte \<Rightarrow> byte \<Rightarrow> u32" where
  "imm32 b0 b1 b2 b3 =
     word_of_int (uint b0 + 2 ^ 8 * uint b1 + 2 ^ 16 * uint b2 + 2 ^ 24 * uint b3)"

text \<open>The fields of a ModRM byte: \<open>mod\<close> (bits 7-6), \<open>reg\<close> (5-3), \<open>rm\<close> (2-0).\<close>

definition modrm_mod :: "byte \<Rightarrow> nat" where
  "modrm_mod m = unat m div 64"

definition modrm_reg :: "byte \<Rightarrow> nat" where
  "modrm_reg m = unat m div 8 mod 8"

definition modrm_rm :: "byte \<Rightarrow> nat" where
  "modrm_rm m = unat m mod 8"

text \<open>The condition \<open>LE\<close> of \<open>jle\<close>: \<open>ZF = 1\<close> or \<open>SF \<noteq> OF\<close>.\<close>

definition jle_taken :: "cpu \<Rightarrow> bool" where
  "jle_taken s = (ZF s \<or> SF s \<noteq> OF s)"

datatype step_result = Next cpu | Ret cpu | Bad

definition advance :: "nat \<Rightarrow> cpu \<Rightarrow> step_result" where
  "advance k s = Next (s\<lparr>ip := ip s + k\<rparr>)"

text \<open>
  A short jump: the signed 8-bit displacement is relative to the address of the next
  instruction. A target before the start of the region is outside the model.
\<close>

definition jump_rel8 :: "byte \<Rightarrow> cpu \<Rightarrow> step_result" where
  "jump_rel8 d s =
     (let target = int (ip s) + 2 + sint d
      in if target < 0 then Bad else Next (s\<lparr>ip := nat target\<rparr>))"

text \<open>
  Instructions with a ModRM byte, register-direct form only (\<open>mod = 3\<close>):
  \<^item> \<open>89 /r\<close> \<open>mov r/m32, r32\<close>;
  \<^item> \<open>01 /r\<close> \<open>add r/m32, r32\<close>;
  \<^item> \<open>31 /r\<close> \<open>xor r/m32, r32\<close>;
  \<^item> \<open>39 /r\<close> \<open>cmp r/m32, r32\<close>;
  \<^item> \<open>FF /0\<close> \<open>inc r/m32\<close>.
\<close>

definition step_modrm :: "byte \<Rightarrow> byte \<Rightarrow> cpu \<Rightarrow> step_result" where
  "step_modrm opc m s =
     (let r = modrm_reg m; rm = modrm_rm m; a = get_reg s rm; b = get_reg s r
      in if modrm_mod m \<noteq> 3 then Bad
         else if opc = 0x89 then advance 2 (set_reg rm b s)
         else if opc = 0x01 then advance 2 (set_reg rm (a + b) (add_flags a b s))
         else if opc = 0x31 then advance 2 (set_reg rm (a XOR b) (logic_flags (a XOR b) s))
         else if opc = 0x39 then advance 2 (sub_flags a b s)
         else if opc = 0xff \<and> r = 0 then advance 2 (set_reg rm (a + 1) (add_flags a 1 s))
         else Bad)"

text \<open>
  One instruction at \<open>ip\<close>:
  \<^item> \<open>C3\<close> \<open>ret\<close>;
  \<^item> \<open>7E cb\<close> \<open>jle rel8\<close>;
  \<^item> \<open>B8+rd id\<close> \<open>mov r32, imm32\<close>;
  \<^item> \<open>83 /7 ib\<close> \<open>cmp r/m32, imm8\<close> (the immediate sign-extended);
  \<^item> \<open>0F AF /r\<close> \<open>imul r32, r/m32\<close>;
  \<^item> the ModRM forms of \<open>step_modrm\<close>.
  Anything else, and a fetch outside the region, is \<open>Bad\<close>.
\<close>

definition step :: "byte list \<Rightarrow> cpu \<Rightarrow> step_result" where
  "step mem s =
     (case fetch mem (ip s) of
        None \<Rightarrow> Bad
      | Some opc \<Rightarrow>
          if opc = 0xc3 then Ret s
          else (case fetch mem (ip s + 1) of
            None \<Rightarrow> Bad
          | Some b1 \<Rightarrow>
              if opc = 0x7e then
                (if jle_taken s then jump_rel8 b1 s else advance 2 s)
              else if 0xb8 \<le> unat opc \<and> unat opc \<le> 0xbf then
                (case (fetch mem (ip s + 2), fetch mem (ip s + 3), fetch mem (ip s + 4)) of
                   (Some b2, Some b3, Some b4) \<Rightarrow>
                     advance 5 (set_reg (unat opc - 0xb8) (imm32 b1 b2 b3 b4) s)
                 | _ \<Rightarrow> Bad)
              else if opc = 0x83 then
                (case fetch mem (ip s + 2) of
                   None \<Rightarrow> Bad
                 | Some b2 \<Rightarrow>
                     if modrm_mod b1 = 3 \<and> modrm_reg b1 = 7
                     then advance 3 (sub_flags (get_reg s (modrm_rm b1)) (scast b2) s)
                     else Bad)
              else if opc = 0x0f then
                (case fetch mem (ip s + 2) of
                   None \<Rightarrow> Bad
                 | Some b2 \<Rightarrow>
                     if b1 = 0xaf \<and> modrm_mod b2 = 3
                     then (let a = get_reg s (modrm_reg b2); b = get_reg s (modrm_rm b2)
                           in advance 3 (set_reg (modrm_reg b2) (a * b) (imul_flags a b s)))
                     else Bad)
              else step_modrm opc b1 s))"

text \<open>
  Running from a state until \<open>ret\<close>, with fuel: generated code may loop forever.
  The result is the value left in \<open>eax\<close>.
\<close>

fun exec :: "nat \<Rightarrow> byte list \<Rightarrow> cpu \<Rightarrow> failure + u32" where
  "exec 0 mem s = Inl OutOfFuel"
| "exec (Suc k) mem s =
     (case step mem s of
        Next s' \<Rightarrow> exec k mem s'
      | Ret s' \<Rightarrow> Inr (eax s')
      | Bad \<Rightarrow> Inl Fault)"

section \<open>ctypes function pointers\<close>

text \<open>
  \<open>ctypes.addressof(ctypes.c_char.from_buffer(mem))\<close> is the address of the first
  byte of the region and \<open>CFUNCTYPE(restype, ...)(address)\<close> a function pointer to
  it. The pointer holds the address, not a copy of the bytes: a call runs whatever the
  region contains when the call is made, so a call takes the current \<open>mmap\<close>
  value. Execution starts at offset 0 and needs the region to be executable. The state
  \<open>s0\<close> stands for the registers and flags as the caller happens to leave them.
\<close>

text \<open>One such state, with arbitrary register contents, for the instances below.\<close>

definition sample_caller :: cpu where
  "sample_caller =
     \<lparr>eax = 0xdeadbeef, ecx = 0x7fffffff, edx = 0x80000000, ebx = 3, esp = 0xffffe000,
      ebp = 0xffffe040, esi = 0x12345678, edi = 0xcafe, ZF = True, SF = False, OF = True,
      ip = 4096\<rparr>"

definition call0 :: "nat \<Rightarrow> cpu \<Rightarrow> mmap \<Rightarrow> failure + u32" where
  "call0 fuel s0 m =
     (if is_executable m then exec fuel (data m) (s0\<lparr>ip := 0\<rparr>) else Inl Fault)"

text \<open>
  One argument of type \<open>c_int\<close>: the System V convention passes it in \<open>edi\<close>;
  ctypes converts a Python integer to \<open>c_int\<close> without an overflow check.
\<close>

definition call1 :: "nat \<Rightarrow> cpu \<Rightarrow> mmap \<Rightarrow> int \<Rightarrow> failure + u32" where
  "call1 fuel s0 m n = call0 fuel (s0\<lparr>edi := word_of_int n\<rparr>) m"

text \<open>The result type \<open>c_int\<close> reads \<open>eax\<close> as a signed 32-bit value.\<close>

definition c_int :: "u32 \<Rightarrow> int" where
  "c_int w = sint w"

definition RWX :: int where
  "RWX = PROT_READ OR PROT_WRITE OR PROT_EXEC"

definition PRIVATE_ANON :: int where
  "PRIVATE_ANON = MAP_PRIVATE OR MAP_ANONYMOUS"

text \<open>
  Every script creates its region with the same call,
  \<open>mmap.mmap(-1, size, prot=PROT_READ | PROT_WRITE | PROT_EXEC,
  flags=MAP_PRIVATE | MAP_ANONYMOUS)\<close>; \<open>exec_mem\<close> of self\_modify.py and
  \<open>mem\<close> of jit\_fibonacci.py have 4096 bytes.
\<close>

definition allocate :: "nat \<Rightarrow> failure + mmap" where
  "allocate len = mmap_mmap len RWX PRIVATE_ANON"

definition exec_mem :: "failure + mmap" where
  "exec_mem = allocate 4096"

section \<open>jit\_fibonacci.py\<close>

text \<open>
  The two displacement computations of the script: \<open>loop_end + 2\<close> and
  \<open>jle_patch_pos + 1\<close> are the offsets just after the two-byte \<open>jle\<close>.
\<close>

definition offset_to_loop_of :: "int \<Rightarrow> int \<Rightarrow> int" where
  "offset_to_loop_of loop_start loop_end = loop_start - (loop_end + 2)"

definition jle_target_offset_of :: "int \<Rightarrow> int \<Rightarrow> int" where
  "jle_target_offset_of return_n_pos jle_patch_pos = return_n_pos - (jle_patch_pos + 1)"

text \<open>
  Lines 63-65: \<open>loop_end = len(fibonacci_code)\<close>, the displacement, and
  \<open>fibonacci_code.extend([0x7e, offset_to_loop & 0xff])\<close>.
\<close>

definition emit_jle_loop :: "byte list \<Rightarrow> int \<Rightarrow> failure + byte list" where
  "emit_jle_loop code loop_start =
     (let loop_end = int (length code);
          offset_to_loop = offset_to_loop_of loop_start loop_end
      in bytearray_extend code [0x7e, offset_to_loop AND 0xff])"

text \<open>
  Lines 83-84: \<open>fibonacci_code[jle_patch_pos] = jle_target_offset & 0xff\<close>.
\<close>

definition patch_jle :: "byte list \<Rightarrow> int \<Rightarrow> int \<Rightarrow> failure + byte list" where
  "patch_jle code jle_patch_pos return_n_pos =
     (let jle_target_offset = jle_target_offset_of return_n_pos jle_patch_pos
      in bytearray_setitem code jle_patch_pos (jle_target_offset AND 0xff))"

text \<open>The variables the script holds once the routine is assembled (prefixed \<open>v_\<close>).\<close>

record fib_build =
  v_code :: "byte list"
  v_jle_patch_pos :: int
  v_loop_start :: int
  v_loop_end :: int
  v_offset_to_loop :: int
  v_return_n_pos :: int
  v_jle_target_offset :: int

definition build_fibonacci :: "failure + fib_build" where
  "build_fibonacci =
     and_then (bytearray_extend [] [0x83, 0xff, 0x01]) (\<lambda>c.
     and_then (bytearray_extend c [0x7e, 0x00]) (\<lambda>c.
     let jpp = int (length c) - 1 in
     and_then (bytearray_extend c [0x31, 0xc0]) (\<lambda>c.
     and_then (bytearray_extend c [0xba, 0x01, 0x00, 0x00, 0x00]) (\<lambda>c.
     and_then (bytearray_extend c [0xb9, 0x02, 0x00, 0x00, 0x00]) (\<lambda>c.
     let ls = int (length c) in
     and_then (bytearray_extend c [0x89, 0xd6]) (\<lambda>c.
     and_then (bytearray_extend c [0x01, 0xc6]) (\<lambda>c.
     and_then (bytearray_extend c [0x89, 0xd0]) (\<lambda>c.
     and_then (bytearray_extend c [0x89, 0xf2]) (\<lambda>c.
     and_then (bytearray_extend c [0xff, 0xc1]) (\<lambda>c.
     and_then (bytearray_extend c [0x39, 0xf9]) (\<lambda>c.
     let le = int (length c) in
     and_then (emit_jle_loop c ls) (\<lambda>c.
     and_then (bytearray_extend c [0x89, 0xd0]) (\<lambda>c.
     and_then (bytearray_extend c [0xc3]) (\<lambda>c.
     let rnp = int (length c) in
     and_then (bytearray_extend c [0x89, 0xf8]) (\<lambda>c.
     and_then (bytearray_extend c [0xc3]) (\<lambda>c.
     and_then (patch_jle c jpp rnp) (\<lambda>c.
     Inr \<lparr>v_code = c, v_jle_patch_pos = jpp, v_loop_start = ls, v_loop_end = le,
          v_offset_to_loop = offset_to_loop_of ls le, v_return_n_pos = rnp,
          v_jle_target_offset = jle_target_offset_of rnp jpp\<rparr>)))))))))))))))))"

text \<open>The 37 bytes the script prints for the assembled routine.\<close>

definition fib_routine :: "byte list" where
  "fib_routine =
     [0x83, 0xff, 0x01, 0x7e, 0x1d, 0x31, 0xc0, 0xba, 0x01, 0x00, 0x00, 0x00,
      0xb9, 0x02, 0x00, 0x00, 0x00, 0x89, 0xd6, 0x01, 0xc6, 0x89, 0xd0, 0x89, 0xf2,
      0xff, 0xc1, 0x39, 0xf9, 0x7e, 0xf2, 0x89, 0xd0, 0xc3, 0x89, 0xf8, 0xc3]"

definition fibonacci_code :: "failure + byte list" where
  "fibonacci_code = and_then build_fibonacci (\<lambda>b. Inr (v_code b))"

text \<open>Lines 120-124: the region and the copy of the routine into it.\<close>

definition fib_mem :: "failure + mmap" where
  "fib_mem =
     and_then fibonacci_code (\<lambda>fibonacci_code.
     and_then (mmap_mmap 4096 RWX PRIVATE_ANON) (\<lambda>mem.
     mmap_write mem fibonacci_code))"

text \<open>\<open>fib_jit = CFUNCTYPE(c_int, c_int)(mem_addr)\<close>, called with \<open>n\<close>.\<close>

definition fib_jit :: "nat \<Rightarrow> cpu \<Rightarrow> int \<Rightarrow> failure + int" where
  "fib_jit fuel s0 n =
     and_then fib_mem (\<lambda>mem.
     and_then (call1 fuel s0 mem n) (\<lambda>r. Inr (c_int r)))"

text \<open>
  The reference implementation; \<open>range(2, n + 1)\<close> is the list \<open>[2..n]\<close>.
\<close>

definition fib_python :: "int \<Rightarrow> int" where
  "fib_python n =
     (if n \<le> 1 then n
      else snd (fold (\<lambda>_ (a, b). (b, a + b)) [2..n] (0, 1)))"

section \<open>self\_modify.py\<close>

text \<open>
  Part 4: \<open>mov eax, 42; ret\<close> is written to a fresh region and called; the region
  is then overwritten from offset 0 with \<open>mov eax, 1337; ret\<close> and the same
  function pointer is called again.
\<close>

definition shellcode_return_42 :: "byte list" where
  "shellcode_return_42 = [0xb8, 0x2a, 0x00, 0x00, 0x00, 0xc3]"

definition shellcode_return_1337 :: "byte list" where
  "shellcode_return_1337 = [0xb8, 0x39, 0x05, 0x00, 0x00, 0xc3]"

text \<open>\<open>func = CFUNCTYPE(c_int)(exec_mem_addr)\<close>, called on the region as it is.\<close>

definition func :: "nat \<Rightarrow> cpu \<Rightarrow> mmap \<Rightarrow> failure + int" where
  "func fuel s0 m = and_then (call0 fuel s0 m) (\<lambda>r. Inr (c_int r))"

definition part4 :: "nat \<Rightarrow> cpu \<Rightarrow> cpu \<Rightarrow> failure + int \<times> int" where
  "part4 fuel s1 s2 =
     and_then (mmap_mmap 4096 RWX PRIVATE_ANON) (\<lambda>exec_mem.
     and_then (mmap_write exec_mem shellcode_return_42) (\<lambda>exec_mem.
     and_then (mmap_seek exec_mem 0) (\<lambda>exec_mem.
     and_then (func fuel s1 exec_mem) (\<lambda>result1.
     and_then (mmap_seek exec_mem 0) (\<lambda>exec_mem.
     and_then (mmap_write exec_mem shellcode_return_1337) (\<lambda>exec_mem.
     and_then (mmap_seek exec_mem 0) (\<lambda>exec_mem.
     and_then (func fuel s2 exec_mem) (\<lambda>result2.
     Inr (result1, result2)))))))))"

text \<open>
  Part 5: \<open>mov eax, imm32; ret\<close> whose immediate (bytes 1-4) is patched in place
  between calls of one function pointer \<open>dynamic_func\<close>.
\<close>

definition base_code :: "byte list" where
  "base_code = [0xb8, 0x00, 0x00, 0x00, 0x00, 0xc3]"

definition dynamic_func :: "nat \<Rightarrow> cpu \<Rightarrow> mmap \<Rightarrow> failure + int" where
  "dynamic_func fuel s0 m = and_then (call0 fuel s0 m) (\<lambda>r. Inr (c_int r))"

text \<open>
  Lines 265-269: \<open>struct.pack('<I', new_value)\<close>, \<open>seek(1)\<close>, \<open>write\<close>.
\<close>

definition patch_immediate :: "mmap \<Rightarrow> int \<Rightarrow> failure + mmap" where
  "patch_immediate exec_mem2 new_value =
     and_then (struct_pack_I new_value) (\<lambda>new_bytes.
     and_then (mmap_seek exec_mem2 1) (\<lambda>exec_mem2.
     mmap_write exec_mem2 new_bytes))"

text \<open>
  The loop \<open>for i in range(10)\<close>: call, append the result, patch to
  \<open>(i + 1) * 100\<close>. \<open>caller j\<close> is the register state the \<open>j\<close>-th call starts
  from.
\<close>

fun patch_loop :: "nat \<Rightarrow> (nat \<Rightarrow> cpu) \<Rightarrow> int list \<Rightarrow> mmap \<Rightarrow> int list \<Rightarrow> failure + mmap \<times> int list" where
  "patch_loop fuel caller [] exec_mem2 results = Inr (exec_mem2, results)"
| "patch_loop fuel caller (i # rest) exec_mem2 results =
     (case dynamic_func fuel (caller (length results)) exec_mem2 of
        Inl e \<Rightarrow> Inl e
      | Inr result \<Rightarrow>
          (case patch_immediate exec_mem2 ((i + 1) * 100) of
             Inl e \<Rightarrow> Inl e
           | Inr exec_mem2' \<Rightarrow> patch_loop fuel caller rest exec_mem2' (results @ [result])))"

text \<open>Part 5 as a whole: the list \<open>results + [final_result]\<close>.\<close>

definition part5 :: "nat \<Rightarrow> (nat \<Rightarrow> cpu) \<Rightarrow> failure + int list" where
  "part5 fuel caller =
     and_then (mmap_mmap 4096 RWX PRIVATE_ANON) (\<lambda>exec_mem2.
     and_then (mmap_write exec_mem2 base_code) (\<lambda>exec_mem2.
     and_then (patch_loop fuel caller [0..9] exec_mem2 []) (\<lambda>(exec_mem2, results).
     and_then (dynamic_func fuel (caller (length results)) exec_mem2) (\<lambda>final_result.
     Inr (results @ [final_result])))))"

text \<open>
  Part 6: the code generator for \<open>a + b * c\<close>. \<open>code.extend(struct.pack(...))\<close>
  appends a \<open>bytes\<close> value, which cannot fail.
\<close>

definition jit_compile_add_mul :: "int \<Rightarrow> int \<Rightarrow> int \<Rightarrow> failure + byte list" where
  "jit_compile_add_mul a_val b_val c_val =
     and_then (bytearray_extend [] [0xb8]) (\<lambda>code.
     and_then (struct_pack_I (a_val AND 0xFFFFFFFF)) (\<lambda>imm.
     and_then (bytearray_extend (code @ imm) [0xb9]) (\<lambda>code.
     and_then (struct_pack_I (b_val AND 0xFFFFFFFF)) (\<lambda>imm.
     and_then (bytearray_extend (code @ imm) [0xba]) (\<lambda>code.
     and_then (struct_pack_I (c_val AND 0xFFFFFFFF)) (\<lambda>imm.
     and_then (bytearray_extend (code @ imm) [0x0f, 0xaf, 0xca]) (\<lambda>code.
     and_then (bytearray_extend code [0x01, 0xc8]) (\<lambda>code.
     bytearray_extend code [0xc3]))))))))"

text \<open>
  One round of the test loop (lines 353-365) on the shared region \<open>exec_mem3\<close>:
  generate, \<open>seek(0)\<close>, write, bind \<open>jit_func\<close> and call it.
\<close>

definition jit_func :: "nat \<Rightarrow> cpu \<Rightarrow> mmap \<Rightarrow> int \<Rightarrow> int \<Rightarrow> int \<Rightarrow> failure + int \<times> mmap" where
  "jit_func fuel s0 exec_mem3 a b c =
     and_then (jit_compile_add_mul a b c) (\<lambda>machine_code.
     and_then (mmap_seek exec_mem3 0) (\<lambda>exec_mem3.
     and_then (mmap_write exec_mem3 machine_code) (\<lambda>exec_mem3.
     and_then (call0 fuel s0 exec_mem3) (\<lambda>r.
     Inr (c_int r, exec_mem3)))))"

section \<open>validate\_mmap.py and image\_executor\_v2.py\<close>

text \<open>
  validate\_mmap.py writes \<open>code\<close> to a fresh 4096-byte region, seeks to 0 and reads
  six bytes back: \<open>mem.write(code); mem.seek(0); read_back = mem.read(6)\<close>. The
  script's \<open>code\<close> is the six bytes of \<open>deadbeef_code\<close>.
\<close>

definition read_back :: "byte list \<Rightarrow> failure + byte list" where
  "read_back code =
     and_then (mmap_mmap 4096 RWX PRIVATE_ANON) (\<lambda>mem.
     and_then (mmap_write mem code) (\<lambda>mem.
     and_then (mmap_seek mem 0) (\<lambda>mem.
     Inr (fst (mmap_read mem 6)))))"

definition deadbeef_code :: "byte list" where
  "deadbeef_code = [0xb8, 0xef, 0xbe, 0xad, 0xde, 0xc3]"

text \<open>
  \<open>execute_code\<close> of image\_executor\_v2.py up to the call: a region of exactly
  \<open>len(code_bytes)\<close> bytes, the copy, and \<open>seek(0)\<close>.
\<close>

definition execute_code_mem :: "byte list \<Rightarrow> failure + mmap" where
  "execute_code_mem code_bytes =
     (let code_size = length code_bytes in
      and_then (mmap_mmap code_size RWX PRIVATE_ANON) (\<lambda>mem.
      and_then (mmap_write mem code_bytes) (\<lambda>mem.
      mmap_seek mem 0)))"

section \<open>Notation for the proofs\<close>

text \<open>The body of the reference loop, \<open>a, b = b, a + b\<close>.\<close>

abbreviation fibf :: "int \<Rightarrow> int \<times> int \<Rightarrow> int \<times> int" where
  "fibf \<equiv> (\<lambda>_ (a, b). (b, a + b))"

text \<open>
  A region that starts with the routine \<open>jit_compile_add_mul\<close> emits, the twelve
  immediate bytes left open.
\<close>

abbreviation addmul_image :: "byte \<Rightarrow> byte \<Rightarrow> byte \<Rightarrow> byte \<Rightarrow> byte \<Rightarrow> byte \<Rightarrow> byte \<Rightarrow> byte
    \<Rightarrow> byte \<Rightarrow> byte \<Rightarrow> byte \<Rightarrow> byte \<Rightarrow> byte list \<Rightarrow> byte list" where
  "addmul_image a0 a1 a2 a3 b0 b1 b2 b3 c0 c1 c2 c3 rest \<equiv>
     0xb8 # a0 # a1 # a2 # a3 # 0xb9 # b0 # b1 # b2 # b3 # 0xba # c0 # c1 # c2 # c3 #
     0x0f # 0xaf # 0xca # 0x01 # 0xc8 # 0xc3 # rest"

section \<open>Basic facts\<close>


lemma and_then_Inr [simp]: "and_then (Inr x) f = f x"
  by (simp add: and_then_def)

lemma and_then_Inl [simp]: "and_then (Inl e) f = Inl e"
  by (simp add: and_then_def)

lemma sint32_range: "- 2147483648 \<le> sint (w :: u32) \<and> sint w < 2147483648"
  using sint_ge [of w] sint_lt [of w] by simp

lemma sint32_of_int: "- 2147483648 \<le> x \<Longrightarrow> x < 2147483648 \<Longrightarrow> sint (word_of_int x :: u32) = x"
  by (simp add: sint_sbintrunc' signed_take_bit_int_eq_self)

lemma jle_sub_flags:
  fixes a b :: u32
  shows "jle_taken (sub_flags a b s) = (sint a \<le> sint b)"
proof -
  define d where "d = sint a - sint b"
  have ra: "- 2147483648 \<le> sint a" "sint a < 2147483648"
    using sint32_range [of a] by simp_all
  have rb: "- 2147483648 \<le> sint b" "sint b < 2147483648"
    using sint32_range [of b] by simp_all
  have rr: "- 2147483648 \<le> sint (a - b)" "sint (a - b) < 2147483648"
    using sint32_range [of "a - b"] by simp_all
  have z: "(a - b = 0) = (d = 0)"
    by (simp add: d_def word_eq_iff_signed [of a b])
  have r: "sint (a - b) = signed_take_bit 31 d"
    by (simp add: d_def sint_word_diff)
  consider "- 2147483648 \<le> d \<and> d < 2147483648" | "2147483648 \<le> d" | "d < - 2147483648"
    by linarith
  then have "(a - b = 0 \<or> (sint (a - b) < 0) \<noteq> (sint (a - b) \<noteq> d)) = (d \<le> 0)"
  proof cases
    case 1
    then have "signed_take_bit 31 d = d"
      by (simp add: signed_take_bit_int_eq_self)
    with r z show ?thesis by auto
  next
    case 2
    have "signed_take_bit 31 d \<le> d - 2 ^ Suc 31"
      by (rule signed_take_bit_int_less_eq) (use 2 in simp)
    with r have "sint (a - b) \<le> d - 4294967296" by simp
    with 2 z ra rb show ?thesis unfolding d_def by auto
  next
    case 3
    have "d + 2 ^ Suc 31 \<le> signed_take_bit 31 d"
      by (rule signed_take_bit_int_greater_eq) (use 3 in simp)
    with r have "d + 4294967296 \<le> sint (a - b)" by simp
    with 3 z ra rb show ?thesis unfolding d_def by auto
  qed
  then show ?thesis
    by (simp add: jle_taken_def sub_flags_def d_def)
qed

lemma uint8_of_int: "uint (word_of_int x :: byte) = x mod 256"
  by (simp add: uint_word_of_int)

lemma le_bytes_sum:
  fixes v :: int
  assumes "0 \<le> v" "v < 4294967296"
  shows "v mod 256 + 256 * (v div 256 mod 256) + 65536 * (v div 65536 mod 256)
           + 16777216 * (v div 16777216 mod 256) = v"
proof -
  define q1 where "q1 = v div 256"
  define q2 where "q2 = q1 div 256"
  define q3 where "q3 = q2 div 256"
  have d1: "v = v mod 256 + 256 * q1" by (simp add: q1_def)
  have d2: "q1 = q1 mod 256 + 256 * q2" by (simp add: q2_def)
  have d3: "q2 = q2 mod 256 + 256 * q3" by (simp add: q3_def)
  have r1: "0 \<le> v mod 256" "v mod 256 < 256" by simp_all
  have r2: "0 \<le> q1 mod 256" "q1 mod 256 < 256" by simp_all
  have r3: "0 \<le> q2 mod 256" "q2 mod 256 < 256" by simp_all
  have "0 \<le> q3" "q3 < 256"
    using assms d1 d2 d3 r1 r2 r3 by linarith+
  then have m3: "q3 mod 256 = q3" by simp
  have e2: "v div 65536 = q2"
    using zdiv_zmult2_eq [of 256 v 256] by (simp add: q1_def q2_def)
  have e3: "v div 16777216 = q3"
    using zdiv_zmult2_eq [of 256 v 65536] e2 by (simp add: q3_def)
  show ?thesis
    unfolding e2 e3 m3 q1_def [symmetric] using d1 d2 d3 by linarith
qed

lemma imm32_le_bytes32:
  assumes "0 \<le> v" "v < 4294967296"
  shows "imm32 (word_of_int v) (word_of_int (v div 256)) (word_of_int (v div 65536))
           (word_of_int (v div 16777216)) = word_of_int v"
proof -
  have "imm32 (word_of_int v) (word_of_int (v div 256)) (word_of_int (v div 65536))
           (word_of_int (v div 16777216)) =
        word_of_int (v mod 256 + 256 * (v div 256 mod 256) + 65536 * (v div 65536 mod 256)
           + 16777216 * (v div 16777216 mod 256))"
    by (simp add: imm32_def uint8_of_int)
  also have "\<dots> = word_of_int v"
    by (simp only: le_bytes_sum [OF assms])
  finally show ?thesis .
qed

lemma le_bytes32_eq:
  "le_bytes32 v = [word_of_int v, word_of_int (v div 256), word_of_int (v div 65536),
     word_of_int (v div 16777216)]"
  by (simp add: le_bytes32_def)

lemma length_le_bytes32 [simp]: "length (le_bytes32 v) = 4"
  by (simp add: le_bytes32_def)

section \<open>The Fibonacci routine\<close>

lemma build_fibonacci_eq:
  "build_fibonacci = Inr \<lparr>v_code = fib_routine, v_jle_patch_pos = 4, v_loop_start = 17, v_loop_end = 29,
     v_offset_to_loop = - 14, v_return_n_pos = 34, v_jle_target_offset = 29\<rparr>"
  by (simp add: build_fibonacci_def bytearray_extend_def bytearray_setitem_def
        emit_jle_loop_def patch_jle_def offset_to_loop_of_def jle_target_offset_of_def
        fib_routine_def Let_def)

lemma fibonacci_code_eq: "fibonacci_code = Inr fib_routine"
  by (simp add: fibonacci_code_def build_fibonacci_eq)

lemma fib_mem_eq:
  "fib_mem = Inr \<lparr>data = fib_routine @ replicate 4059 0, pos = 37, prot = RWX, flags = PRIVATE_ANON\<rparr>"
  by (simp add: fib_mem_def fibonacci_code_eq mmap_mmap_def mmap_write_def fib_routine_def)

lemma RWX_executable: "prot m = RWX \<Longrightarrow> is_executable m"
  by (simp add: is_executable_def RWX_def PROT_READ_def PROT_WRITE_def PROT_EXEC_def)

lemma length_fib_routine: "length fib_routine = 37"
  by (simp add: fib_routine_def)

lemma fetch_fib:
  "a < 37 \<Longrightarrow> fetch (fib_routine @ rest) a = Some (fib_routine ! a)"
  by (simp add: fetch_def length_fib_routine nth_append)



lemma fib_at:
  "fetch (fib_routine @ rest) 0 = Some 0x83"
  "fetch (fib_routine @ rest) (Suc 0) = Some 0xff"
  "fetch (fib_routine @ rest) 2 = Some 0x01"
  "fetch (fib_routine @ rest) (Suc (Suc 0)) = Some 0x01"
  "fetch (fib_routine @ rest) 3 = Some 0x7e"
  "fetch (fib_routine @ rest) 4 = Some 0x1d"
  "fetch (fib_routine @ rest) 5 = Some 0x31"
  "fetch (fib_routine @ rest) 6 = Some 0xc0"
  "fetch (fib_routine @ rest) 7 = Some 0xba"
  "fetch (fib_routine @ rest) 8 = Some 0x01"
  "fetch (fib_routine @ rest) 9 = Some 0x00"
  "fetch (fib_routine @ rest) 10 = Some 0x00"
  "fetch (fib_routine @ rest) 11 = Some 0x00"
  "fetch (fib_routine @ rest) 12 = Some 0xb9"
  "fetch (fib_routine @ rest) 13 = Some 0x02"
  "fetch (fib_routine @ rest) 14 = Some 0x00"
  "fetch (fib_routine @ rest) 15 = Some 0x00"
  "fetch (fib_routine @ rest) 16 = Some 0x00"
  "fetch (fib_routine @ rest) 17 = Some 0x89"
  "fetch (fib_routine @ rest) 18 = Some 0xd6"
  "fetch (fib_routine @ rest) 19 = Some 0x01"
  "fetch (fib_routine @ rest) 20 = Some 0xc6"
  "fetch (fib_routine @ rest) 21 = Some 0x89"
  "fetch (fib_routine @ rest) 22 = Some 0xd0"
  "fetch (fib_routine @ rest) 23 = Some 0x89"
  "fetch (fib_routine @ rest) 24 = Some 0xf2"
  "fetch (fib_routine @ rest) 25 = Some 0xff"
  "fetch (fib_routine @ rest) 26 = Some 0xc1"
  "fetch (fib_routine @ rest) 27 = Some 0x39"
  "fetch (fib_routine @ rest) 28 = Some 0xf9"
  "fetch (fib_routine @ rest) 29 = Some 0x7e"
  "fetch (fib_routine @ rest) 30 = Some 0xf2"
  "fetch (fib_routine @ rest) 31 = Some 0x89"
  "fetch (fib_routine @ rest) 32 = Some 0xd0"
  "fetch (fib_routine @ rest) 33 = Some 0xc3"
  "fetch (fib_routine @ rest) 34 = Some 0x89"
  "fetch (fib_routine @ rest) 35 = Some 0xf8"
  "fetch (fib_routine @ rest) 36 = Some 0xc3"
  by (simp_all add: fetch_fib) (simp_all add: fib_routine_def numeral_2_eq_2)

lemmas cpu_simps = step_def step_modrm_def advance_def jump_rel8_def get_reg_def set_reg_def
  modrm_mod_def modrm_reg_def modrm_rm_def imm32_def Let_def

lemma jle_taken_ip [simp]: "jle_taken (s\<lparr>ip := a\<rparr>) = jle_taken s"
  by (simp add: jle_taken_def)

lemma sub_flags_regs [simp]:
  "eax (sub_flags a b s) = eax s" "ecx (sub_flags a b s) = ecx s"
  "edx (sub_flags a b s) = edx s" "esi (sub_flags a b s) = esi s"
  "edi (sub_flags a b s) = edi s" "ip (sub_flags a b s) = ip s"
  by (simp_all add: sub_flags_def)

lemma add_flags_regs [simp]:
  "eax (add_flags a b s) = eax s" "ecx (add_flags a b s) = ecx s"
  "edx (add_flags a b s) = edx s" "esi (add_flags a b s) = esi s"
  "edi (add_flags a b s) = edi s" "ip (add_flags a b s) = ip s"
  by (simp_all add: add_flags_def)

lemma logic_flags_regs [simp]:
  "eax (logic_flags r s) = eax s" "ecx (logic_flags r s) = ecx s"
  "edx (logic_flags r s) = edx s" "esi (logic_flags r s) = esi s"
  "edi (logic_flags r s) = edi s" "ip (logic_flags r s) = ip s"
  by (simp_all add: logic_flags_def)

lemma step_0:
  "ip s = 0 \<Longrightarrow> step (fib_routine @ rest) s = Next (sub_flags (edi s) 1 s\<lparr>ip := 3\<rparr>)"
  by (simp add: cpu_simps fib_at)

lemma step_3:
  "ip s = 3 \<Longrightarrow> step (fib_routine @ rest) s = Next (s\<lparr>ip := if jle_taken s then 34 else 5\<rparr>)"
  by (simp add: cpu_simps fib_at)

lemma step_5:
  "ip s = 5 \<Longrightarrow> step (fib_routine @ rest) s = Next (logic_flags 0 s\<lparr>eax := 0, ip := 7\<rparr>)"
  by (simp add: cpu_simps fib_at)

lemma step_7:
  "ip s = 7 \<Longrightarrow> step (fib_routine @ rest) s = Next (s\<lparr>edx := 1, ip := 12\<rparr>)"
  by (simp add: cpu_simps fib_at)

lemma step_12:
  "ip s = 12 \<Longrightarrow> step (fib_routine @ rest) s = Next (s\<lparr>ecx := 2, ip := 17\<rparr>)"
  by (simp add: cpu_simps fib_at)

lemma step_17:
  "ip s = 17 \<Longrightarrow> step (fib_routine @ rest) s = Next (s\<lparr>esi := edx s, ip := 19\<rparr>)"
  by (simp add: cpu_simps fib_at)

lemma step_19:
  "ip s = 19 \<Longrightarrow> step (fib_routine @ rest) s =
     Next (add_flags (esi s) (eax s) s\<lparr>esi := esi s + eax s, ip := 21\<rparr>)"
  by (simp add: cpu_simps fib_at)

lemma step_21:
  "ip s = 21 \<Longrightarrow> step (fib_routine @ rest) s = Next (s\<lparr>eax := edx s, ip := 23\<rparr>)"
  by (simp add: cpu_simps fib_at)

lemma step_23:
  "ip s = 23 \<Longrightarrow> step (fib_routine @ rest) s = Next (s\<lparr>edx := esi s, ip := 25\<rparr>)"
  by (simp add: cpu_simps fib_at)

lemma step_25:
  "ip s = 25 \<Longrightarrow> step (fib_routine @ rest) s =
     Next (add_flags (ecx s) 1 s\<lparr>ecx := ecx s + 1, ip := 27\<rparr>)"
  by (simp add: cpu_simps fib_at)

lemma step_27:
  "ip s = 27 \<Longrightarrow> step (fib_routine @ rest) s = Next (sub_flags (ecx s) (edi s) s\<lparr>ip := 29\<rparr>)"
  by (simp add: cpu_simps fib_at)

lemma step_29:
  "ip s = 29 \<Longrightarrow> step (fib_routine @ rest) s = Next (s\<lparr>ip := if jle_taken s then 17 else 31\<rparr>)"
  by (simp add: cpu_simps fib_at)

lemma step_31:
  "ip s = 31 \<Longrightarrow> step (fib_routine @ rest) s = Next (s\<lparr>eax := edx s, ip := 33\<rparr>)"
  by (simp add: cpu_simps fib_at)

lemma step_33:
  "ip s = 33 \<Longrightarrow> step (fib_routine @ rest) s = Ret s"
  by (simp add: cpu_simps fib_at)

lemma step_34:
  "ip s = 34 \<Longrightarrow> step (fib_routine @ rest) s = Next (s\<lparr>eax := edi s, ip := 36\<rparr>)"
  by (simp add: cpu_simps fib_at)

lemma step_36:
  "ip s = 36 \<Longrightarrow> step (fib_routine @ rest) s = Ret s"
  by (simp add: cpu_simps fib_at)

lemma block_entry:
  "ip s = 0 \<Longrightarrow> exec (Suc (Suc k)) (fib_routine @ rest) s =
     exec k (fib_routine @ rest) (sub_flags (edi s) 1 s\<lparr>ip := if sint (edi s) \<le> 1 then 34 else 5\<rparr>)"
  by (simp add: step_0 step_3 jle_sub_flags)

lemma block_return_n:
  "ip s = 34 \<Longrightarrow> exec (Suc (Suc k)) (fib_routine @ rest) s = Inr (edi s)"
  by (simp add: step_34 step_36)

lemma block_init:
  "ip s = 5 \<Longrightarrow> exec (Suc (Suc (Suc k))) (fib_routine @ rest) s =
     exec k (fib_routine @ rest) (logic_flags 0 s\<lparr>eax := 0, edx := 1, ecx := 2, ip := 17\<rparr>)"
  by (simp add: step_5 step_7 step_12)

lemma block_exit:
  "ip s = 31 \<Longrightarrow> exec (Suc (Suc k)) (fib_routine @ rest) s = Inr (edx s)"
  by (simp add: step_31 step_33)

lemma block_body:
  assumes "ip s = 17"
  shows "\<exists>s'. exec (Suc (Suc (Suc (Suc (Suc (Suc (Suc k))))))) (fib_routine @ rest) s =
           exec k (fib_routine @ rest) s'
         \<and> eax s' = edx s \<and> edx s' = edx s + eax s \<and> ecx s' = ecx s + 1 \<and> edi s' = edi s
         \<and> ip s' = (if sint (ecx s + 1) \<le> sint (edi s) then 17 else 31)"
proof -
  let ?M = "fib_routine @ rest"
  define s1 where "s1 = s\<lparr>esi := edx s, ip := 19\<rparr>"
  define s2 where "s2 = add_flags (esi s1) (eax s1) s1\<lparr>esi := esi s1 + eax s1, ip := 21\<rparr>"
  define s3 where "s3 = s2\<lparr>eax := edx s2, ip := 23\<rparr>"
  define s4 where "s4 = s3\<lparr>edx := esi s3, ip := 25\<rparr>"
  define s5 where "s5 = add_flags (ecx s4) 1 s4\<lparr>ecx := ecx s4 + 1, ip := 27\<rparr>"
  define s6 where "s6 = sub_flags (ecx s5) (edi s5) s5\<lparr>ip := 29\<rparr>"
  define s7 where "s7 = s6\<lparr>ip := if jle_taken s6 then 17 else 31\<rparr>"
  have 1: "step ?M s = Next s1" using assms by (simp add: step_17 s1_def)
  have 2: "step ?M s1 = Next s2" by (simp add: step_19 s1_def s2_def)
  have 3: "step ?M s2 = Next s3" by (simp add: step_21 s2_def s3_def)
  have 4: "step ?M s3 = Next s4" by (simp add: step_23 s3_def s4_def)
  have 5: "step ?M s4 = Next s5" by (simp add: step_25 s4_def s5_def)
  have 6: "step ?M s5 = Next s6" by (simp add: step_27 s5_def s6_def)
  have 7: "step ?M s6 = Next s7" by (simp add: step_29 s6_def s7_def)
  have run: "exec (Suc (Suc (Suc (Suc (Suc (Suc (Suc k))))))) ?M s = exec k ?M s7"
    by (simp add: 1 2 3 4 5 6 7)
  have r1: "eax s1 = eax s" "edx s1 = edx s" "ecx s1 = ecx s" "edi s1 = edi s" "esi s1 = edx s"
    by (simp_all add: s1_def)
  have r2: "eax s2 = eax s" "edx s2 = edx s" "ecx s2 = ecx s" "edi s2 = edi s" "esi s2 = edx s + eax s"
    by (simp_all add: s2_def r1)
  have r3: "eax s3 = edx s" "edx s3 = edx s" "ecx s3 = ecx s" "edi s3 = edi s" "esi s3 = edx s + eax s"
    by (simp_all add: s3_def r2)
  have r4: "eax s4 = edx s" "edx s4 = edx s + eax s" "ecx s4 = ecx s" "edi s4 = edi s"
    by (simp_all add: s4_def r3)
  have r5: "eax s5 = edx s" "edx s5 = edx s + eax s" "ecx s5 = ecx s + 1" "edi s5 = edi s"
    by (simp_all add: s5_def r4)
  have r6: "eax s6 = edx s" "edx s6 = edx s + eax s" "ecx s6 = ecx s + 1" "edi s6 = edi s"
    "jle_taken s6 = (sint (ecx s + 1) \<le> sint (edi s))"
    by (simp_all add: s6_def r5 jle_sub_flags)
  have r7: "eax s7 = edx s" "edx s7 = edx s + eax s" "ecx s7 = ecx s + 1" "edi s7 = edi s"
    "ip s7 = (if sint (ecx s + 1) \<le> sint (edi s) then 17 else 31)"
    by (simp_all add: s7_def r6)
  from run r7 show ?thesis by blast
qed

lemma fib_loop:
  assumes "ip s = 17" "eax s = word_of_int a" "edx s = word_of_int b"
    and "ecx s = word_of_int i" "edi s = word_of_int n"
    and "- 2147483648 \<le> i" "i \<le> n" "n < 2147483647"
  shows "exec (7 * nat (n - i + 1) + 2 + k) (fib_routine @ rest) s =
           Inr (word_of_int (snd (fold fibf [i..n] (a, b))))"
  using assms
proof (induction "nat (n - i)" arbitrary: s a b i)
  case 0
  then have in_eq: "i = n" by simp
  let ?M = "fib_routine @ rest"
  have fuel: "7 * nat (n - i + 1) + 2 + k = Suc (Suc (Suc (Suc (Suc (Suc (Suc (Suc (Suc k))))))))"
    using in_eq by simp
  obtain s' where run: "exec (Suc (Suc (Suc (Suc (Suc (Suc (Suc (Suc (Suc k))))))))) ?M s =
           exec (Suc (Suc k)) ?M s'"
    and f: "edx s' = edx s + eax s" "ip s' = (if sint (ecx s + 1) \<le> sint (edi s) then 17 else 31)"
    using block_body [OF "0.prems"(1), of "Suc (Suc k)" rest] by blast
  have "sint (ecx s + 1) = n + 1"
    using "0.prems" in_eq sint32_of_int [of "n + 1"] by simp
  moreover have "sint (edi s) = n"
    using "0.prems" in_eq sint32_of_int [of n] by simp
  ultimately have "ip s' = 31" using f by simp
  then have "exec (Suc (Suc k)) ?M s' = Inr (edx s')"
    by (rule block_exit)
  moreover have "edx s' = word_of_int (snd (fold fibf [i..n] (a, b)))"
    using f "0.prems" in_eq by (simp add: add.commute)
  ultimately show ?case
    using run fuel by (simp only:)
next
  case (Suc m)
  then have lt: "i < n" and m: "m = nat (n - (i + 1))" by linarith+
  let ?K = "7 * nat (n - (i + 1) + 1) + 2 + k"
  have fuel: "7 * nat (n - i + 1) + 2 + k = Suc (Suc (Suc (Suc (Suc (Suc (Suc ?K))))))"
    using lt by (simp add: nat_add_distrib)
  obtain s' where run: "exec (Suc (Suc (Suc (Suc (Suc (Suc (Suc ?K))))))) (fib_routine @ rest) s =
           exec ?K (fib_routine @ rest) s'"
    and f: "eax s' = edx s" "edx s' = edx s + eax s" "ecx s' = ecx s + 1" "edi s' = edi s"
      "ip s' = (if sint (ecx s + 1) \<le> sint (edi s) then 17 else 31)"
    using block_body [OF Suc.prems(1), of ?K rest] by blast
  have "sint (ecx s + 1) = i + 1"
    using Suc.prems lt sint32_of_int [of "i + 1"] by simp
  moreover have "sint (edi s) = n"
    using Suc.prems lt sint32_of_int [of n] by simp
  ultimately have ip': "ip s' = 17" using f lt by simp
  have B: "exec ?K (fib_routine @ rest) s' = Inr (word_of_int (snd (fold fibf [i + 1..n] (b, a + b))))"
    by (rule Suc.hyps(1) [OF m ip']) (use f Suc.prems lt in \<open>simp_all add: add.commute\<close>)
  have A: "exec (7 * nat (n - i + 1) + 2 + k) (fib_routine @ rest) s = exec ?K (fib_routine @ rest) s'"
    using run fuel by (simp only:)
  have C: "fold fibf [i..n] (a, b) = fold fibf [i + 1..n] (b, a + b)"
    using lt by (simp add: upto_rec1)
  show ?case
    by (simp only: A B C)
qed

lemma fib_jit_le1:
  assumes "- 2147483648 \<le> n" "n \<le> 1"
  shows "fib_jit (4 + k) s0 n = Inr n"
proof -
  let ?s = "s0\<lparr>edi := word_of_int n, ip := 0\<rparr>"
  let ?M = "fib_routine @ replicate 4059 0"
  have sn: "sint (word_of_int n :: u32) = n"
    using assms by (simp add: sint32_of_int)
  have "exec (Suc (Suc (Suc (Suc k)))) ?M ?s =
      exec (Suc (Suc k)) ?M (sub_flags (edi ?s) 1 ?s\<lparr>ip := if sint (edi ?s) \<le> 1 then 34 else 5\<rparr>)"
    by (rule block_entry) simp
  also have "\<dots> = Inr (word_of_int n)"
    using assms sn by (subst block_return_n) simp_all
  finally have "exec (Suc (Suc (Suc (Suc k)))) ?M ?s = Inr (word_of_int n)" .
  moreover have "4 + k = Suc (Suc (Suc (Suc k)))" by simp
  ultimately have "exec (4 + k) ?M ?s = Inr (word_of_int n)"
    by (simp only:)
  then show ?thesis
    using sn by (simp add: fib_jit_def fib_mem_eq call1_def call0_def RWX_executable c_int_def)
qed

lemma fib_python_le1: "n \<le> 1 \<Longrightarrow> fib_python n = n"
  by (simp add: fib_python_def)

lemma fib_jit_ge2:
  assumes "2 \<le> n" "n < 2147483647"
  shows "fib_jit (7 * nat n + k) s0 n = Inr (sint (word_of_int (fib_python n) :: u32))"
proof -
  let ?s = "s0\<lparr>edi := word_of_int n, ip := 0\<rparr>"
  let ?M = "fib_routine @ replicate 4059 0"
  let ?K = "7 * nat (n - 2 + 1) + 2 + k"
  have sn: "sint (word_of_int n :: u32) = n"
    using assms by (simp add: sint32_of_int)
  have fuel: "7 * nat n + k = Suc (Suc (Suc (Suc (Suc ?K))))"
    using assms by (simp add: nat_diff_distrib)
  let ?s1 = "sub_flags (edi ?s) 1 ?s\<lparr>ip := if sint (edi ?s) \<le> 1 then 34 else 5\<rparr>"
  let ?s2 = "logic_flags 0 ?s1\<lparr>eax := 0, edx := 1, ecx := 2, ip := 17\<rparr>"
  have "exec (Suc (Suc (Suc (Suc (Suc ?K))))) ?M ?s = exec (Suc (Suc (Suc ?K))) ?M ?s1"
    by (rule block_entry) simp
  also have "\<dots> = exec ?K ?M ?s2"
    by (rule block_init) (use assms sn in simp)
  also have "\<dots> = Inr (word_of_int (snd (fold fibf [2..n] (0, 1))))"
    by (rule fib_loop) (use assms in simp_all)
  finally have "exec (7 * nat n + k) ?M ?s = Inr (word_of_int (fib_python n))"
    using assms fuel by (simp only: fib_python_def) simp
  then show ?thesis
    by (simp add: fib_jit_def fib_mem_eq call1_def call0_def RWX_executable c_int_def)
qed

lemma fib_python_table:
  "map fib_python [0..20] =
     [0, 1, 1, 2, 3, 5, 8, 13, 21, 34, 55, 89, 144, 233, 377, 610, 987, 1597, 2584, 4181, 6765]"
  by code_simp

lemma fib_python_small:
  assumes "0 \<le> n" "n \<le> 20"
  shows "0 \<le> fib_python n \<and> fib_python n < 2147483648"
proof -
  have "list_all (\<lambda>n. 0 \<le> fib_python n \<and> fib_python n < 2147483648) [0..20]"
    by code_simp
  moreover have "n \<in> set [0..20]" using assms by simp
  ultimately show ?thesis by (auto simp: list_all_iff)
qed

text \<open>
  Claim C1. For every \<open>n\<close> from 0 to 20 the routine copied into the region,
  called with \<open>n\<close> in \<open>edi\<close>, returns in \<open>eax\<close> the value of the reference
  function \<open>fib_python\<close>, whatever the caller left in the other registers and flags
  and for every fuel from 140 steps on; the reference values for \<open>n\<close> from 0 to 10
  are 0, 1, 1, 2, 3, 5, 8, 13, 21, 34, 55.
\<close>

theorem fib_jit_matches_fib_python:
  "(\<forall>n\<in>{0..20}. fib_jit (140 + k) s0 n = Inr (fib_python n)) \<and>
   map fib_python [0..10] = [0, 1, 1, 2, 3, 5, 8, 13, 21, 34, 55]"
proof
  show "\<forall>n\<in>{0..20}. fib_jit (140 + k) s0 n = Inr (fib_python n)"
  proof
    fix n :: int
    assume "n \<in> {0..20}"
    then have r: "0 \<le> n" "n \<le> 20" by simp_all
    show "fib_jit (140 + k) s0 n = Inr (fib_python n)"
    proof (cases "n \<le> 1")
      case True
      have "fib_jit (4 + (136 + k)) s0 n = Inr n"
        by (rule fib_jit_le1) (use r True in simp_all)
      then show ?thesis using True by (simp add: fib_python_le1)
    next
      case False
      have "140 + k = 7 * nat n + (140 - 7 * nat n + k)" using r by simp
      moreover have "fib_jit (7 * nat n + (140 - 7 * nat n + k)) s0 n =
          Inr (sint (word_of_int (fib_python n) :: u32))"
        by (rule fib_jit_ge2) (use r False in simp_all)
      moreover have "sint (word_of_int (fib_python n) :: u32) = fib_python n"
        using fib_python_small [OF r] by (simp add: sint32_of_int)
      ultimately show ?thesis by simp
    qed
  qed
  show "map fib_python [0..10] = [0, 1, 1, 2, 3, 5, 8, 13, 21, 34, 55]"
    by code_simp
qed

text \<open>The instance \<open>n = 10\<close>: the routine returns 55.\<close>

theorem fib_jit_matches_fib_python_witness:
  "(10::int) \<in> {0..20} \<and> fib_jit 140 sample_caller 10 = Inr 55 \<and> fib_python 10 = 55"
proof -
  have "fib_python 10 = 55" by code_simp
  then show ?thesis
    using fib_jit_matches_fib_python [of 0 sample_caller] by simp
qed

text \<open>
  Claim C8. For every \<open>c_int\<close> argument \<open>n \<le> 1\<close>, negative ones included, the
  routine takes the \<open>cmp edi, 1\<close> / \<open>jle\<close> path and returns \<open>n\<close> itself after
  four instructions, and \<open>fib_python\<close> returns \<open>n\<close> as well.
\<close>

theorem fib_jit_returns_small_argument:
  "- 2147483648 \<le> n \<Longrightarrow> n \<le> 1 \<Longrightarrow> fib_jit (4 + k) s0 n = Inr n \<and> fib_python n = n"
  by (simp add: fib_jit_le1 fib_python_le1)

text \<open>The instance \<open>n = -7\<close>.\<close>

theorem fib_jit_returns_small_argument_witness:
  "- 2147483648 \<le> (- 7 :: int) \<and> (- 7 :: int) \<le> 1 \<and>
   fib_jit 4 sample_caller (- 7) = Inr (- 7) \<and> fib_python (- 7) = - 7"
  using fib_jit_returns_small_argument [of "- 7" 0 sample_caller] by simp

section \<open>Branch displacements, regions and permissions\<close>

lemma and_ff_mod: "(d::int) AND 255 = d mod 256"
proof -
  have "d AND 255 = d AND mask 8" by (simp add: mask_eq_exp_minus_1)
  also have "\<dots> = take_bit 8 d" by (simp only: take_bit_eq_mask)
  also have "\<dots> = d mod 256" by (simp add: take_bit_eq_mod)
  finally show ?thesis .
qed

lemma word8_and_ff: "(word_of_int (d AND 255) :: byte) = word_of_int d"
  by (simp add: and_ff_mod word_of_int_eq_iff take_bit_eq_mod)

lemma and_ff_range: "0 \<le> d AND 255 \<and> d AND 255 < (256::int)"
  by (simp add: and_ff_mod)

lemma sint8_of_int_iff: "(sint (word_of_int d :: byte) = d) = (- 128 \<le> d \<and> d \<le> 127)"
  by (auto simp: sint_sbintrunc' signed_take_bit_int_eq_self_iff)

lemma emit_jle_loop_eq:
  "emit_jle_loop code loop_start =
     Inr (code @ [0x7e, word_of_int (offset_to_loop_of loop_start (int (length code)))])"
  using and_ff_range [of "offset_to_loop_of loop_start (int (length code))"]
  by (simp add: emit_jle_loop_def bytearray_extend_def word8_and_ff Let_def)

lemma patch_jle_eq:
  "0 \<le> p \<Longrightarrow> p < int (length code) \<Longrightarrow>
   patch_jle code p r = Inr (code[nat p := word_of_int (jle_target_offset_of r p)])"
  using and_ff_range [of "jle_target_offset_of r p"]
  by (simp add: patch_jle_def bytearray_setitem_def word8_and_ff Let_def)

text \<open>
  Claim C2, as stated, fails: the script has no range check on a displacement. With 200
  bytes emitted since the loop start the displacement is -202, and \<open>emit_jle_loop\<close>
  succeeds and stores the byte \<open>0x36\<close>, which the processor reads as +54.
\<close>

theorem emit_jle_loop_truncates_silently:
  "emit_jle_loop (replicate 200 0x90) 0 = Inr (replicate 200 0x90 @ [0x7e, 0x36]) \<and>
   offset_to_loop_of 0 200 = - 202 \<and> sint (0x36 :: byte) = 54"
  by (simp add: emit_jle_loop_def bytearray_extend_def offset_to_loop_of_def Let_def)

text \<open>
  Claim C2, amended. Emitting or patching a branch never fails on the size of the
  displacement: the byte stored is the displacement modulo 256 (\<open>& 0xff\<close>). The
  stored byte, read back as a signed byte, is the displacement exactly when the
  displacement lies in -128..127; outside that range it is truncated silently.
\<close>

theorem displacement_stored_modulo_256:
  assumes "0 \<le> p" "p < int (length code)"
  shows "emit_jle_loop code loop_start =
       Inr (code @ [0x7e, word_of_int (offset_to_loop_of loop_start (int (length code)) mod 256)]) \<and>
     patch_jle code p r = Inr (code[nat p := word_of_int (jle_target_offset_of r p mod 256)]) \<and>
     (sint (word_of_int (d mod 256) :: byte) = d) = (- 128 \<le> d \<and> d \<le> 127)"
proof -
  have m: "(word_of_int (x mod 256) :: byte) = word_of_int x" for x :: int
    using word8_and_ff [of x] by (simp add: and_ff_mod)
  show ?thesis
    by (simp only: m emit_jle_loop_eq patch_jle_eq [OF assms] sint8_of_int_iff)
qed

text \<open>An instance: a displacement of 293 is stored as 0x25.\<close>

theorem displacement_stored_modulo_256_witness:
  "(0::int) \<le> 4 \<and> (4::int) < int (length [0x83, 0xff, 0x01, 0x7e, 0x00 :: byte]) \<and>
   emit_jle_loop [0x83, 0xff, 0x01, 0x7e, 0x00] 300 = Inr [0x83, 0xff, 0x01, 0x7e, 0x00, 0x7e, 0x25] \<and>
   patch_jle [0x83, 0xff, 0x01, 0x7e, 0x00] 4 34 = Inr [0x83, 0xff, 0x01, 0x7e, 0x1d] \<and>
   sint (word_of_int (293 mod 256) :: byte) \<noteq> 293"
  using displacement_stored_modulo_256 [of 4 "[0x83, 0xff, 0x01, 0x7e, 0x00]" 300 34 293]
  by (simp add: offset_to_loop_of_def jle_target_offset_of_def)

text \<open>
  Claim C5. The displacement of the backward \<open>jle\<close> is the label \<open>loop_start\<close>
  minus the offset just after the instruction (\<open>len(code) + 2\<close>, the length of the
  buffer once the two bytes are emitted); the displacement patched into the forward
  \<open>jle\<close> is the label \<open>return_n_pos\<close> minus \<open>jle_patch_pos + 1\<close>, again the
  offset just after the instruction. The byte written is the two's-complement encoding
  of the displacement (a displacement in -128..127 is read back unchanged), a taken
  jump continues at the next instruction's offset plus the displacement, and a forward
  target gives a positive displacement, a backward target a negative one.
\<close>

theorem displacement_relative_to_instruction_end:
  assumes "0 \<le> p" "p < int (length code)" "- 128 \<le> d" "d \<le> 127" "0 \<le> int (ip s) + 2 + d"
  shows "emit_jle_loop code loop_start =
       Inr (code @ [0x7e, word_of_int (loop_start - (int (length code) + 2))]) \<and>
     patch_jle code p r = Inr (code[nat p := word_of_int (r - (p + 1))]) \<and>
     sint (word_of_int d :: byte) = d \<and>
     jump_rel8 (word_of_int d) s = Next (s\<lparr>ip := nat (int (ip s) + 2 + d)\<rparr>) \<and>
     (0 < jle_target_offset_of r p) = (p + 1 < r) \<and>
     (offset_to_loop_of loop_start (int (length code)) < 0) = (loop_start < int (length code) + 2)"
proof -
  have sd: "sint (word_of_int d :: byte) = d"
    using assms(3,4) by (simp add: sint8_of_int_iff)
  have e: "emit_jle_loop code loop_start =
      Inr (code @ [0x7e, word_of_int (loop_start - (int (length code) + 2))])"
    by (simp only: emit_jle_loop_eq offset_to_loop_of_def)
  have p: "patch_jle code p r = Inr (code[nat p := word_of_int (r - (p + 1))])"
    by (simp only: patch_jle_eq [OF assms(1,2)] jle_target_offset_of_def)
  have j: "jump_rel8 (word_of_int d) s = Next (s\<lparr>ip := nat (int (ip s) + 2 + d)\<rparr>)"
    using assms(5) by (simp add: jump_rel8_def sd Let_def)
  have o: "(0 < jle_target_offset_of r p) = (p + 1 < r)"
    "(offset_to_loop_of loop_start (int (length code)) < 0) = (loop_start < int (length code) + 2)"
    by (simp_all add: jle_target_offset_of_def offset_to_loop_of_def)
  from e p sd j o show ?thesis by (intro conjI)
qed

text \<open>An instance: the backward jump of the routine, displacement -14 from offset 31 to 17.\<close>

theorem displacement_relative_to_instruction_end_witness:
  "(0::int) \<le> 4 \<and> (4::int) < int (length [0x83, 0xff, 0x01, 0x7e, 0x00 :: byte]) \<and>
   - 128 \<le> (- 14 :: int) \<and> (- 14 :: int) \<le> 127 \<and>
   0 \<le> int (ip (sample_caller\<lparr>ip := 29\<rparr>)) + 2 + (- 14) \<and>
   emit_jle_loop [0x83, 0xff, 0x01, 0x7e, 0x00] 2 = Inr [0x83, 0xff, 0x01, 0x7e, 0x00, 0x7e, 0xfb] \<and>
   patch_jle [0x83, 0xff, 0x01, 0x7e, 0x00] 4 34 = Inr [0x83, 0xff, 0x01, 0x7e, 0x1d] \<and>
   sint (word_of_int (- 14) :: byte) = - 14 \<and>
   jump_rel8 (word_of_int (- 14)) (sample_caller\<lparr>ip := 29\<rparr>) = Next (sample_caller\<lparr>ip := 17\<rparr>)"
  using displacement_relative_to_instruction_end
    [of 4 "[0x83, 0xff, 0x01, 0x7e, 0x00]" "- 14" "sample_caller\<lparr>ip := 29\<rparr>" 2 34]
  by simp

text \<open>
  Claim C9. The two displacements of the Fibonacci routine are 29 (forward, to
  \<open>return_n_pos\<close>) and -14 (backward, \<open>loop_start - (loop_end + 2)\<close>); both lie
  in -128..127, and the bytes stored at offsets 4 and 30 after \<open>& 0xff\<close> read back
  as exactly these signed values.
\<close>

theorem fibonacci_displacements_fit_one_byte:
  "(case build_fibonacci of
      Inl e \<Rightarrow> False
    | Inr b \<Rightarrow>
        v_jle_target_offset b = v_return_n_pos b - (v_jle_patch_pos b + 1) \<and>
        v_offset_to_loop b = v_loop_start b - (v_loop_end b + 2) \<and>
        v_jle_target_offset b = 29 \<and> v_offset_to_loop b = - 14 \<and>
        - 128 \<le> v_jle_target_offset b \<and> v_jle_target_offset b \<le> 127 \<and>
        - 128 \<le> v_offset_to_loop b \<and> v_offset_to_loop b \<le> 127 \<and>
        v_code b ! 4 = word_of_int (v_jle_target_offset b AND 0xff) \<and>
        v_code b ! 30 = word_of_int (v_offset_to_loop b AND 0xff) \<and>
        sint (v_code b ! 4) = v_jle_target_offset b \<and>
        sint (v_code b ! 30) = v_offset_to_loop b)"
  by (simp add: build_fibonacci_eq fib_routine_def)

text \<open>
  Claim C4, as stated, fails: the region the scripts allocate is writable and
  executable at once from the start, not writable and non-executable.
\<close>

theorem exec_mem_not_write_xor_execute:
  "(case exec_mem of Inl e \<Rightarrow> False | Inr m \<Rightarrow> is_writable m \<and> is_executable m) \<and>
   \<not> (case exec_mem of Inl e \<Rightarrow> False | Inr m \<Rightarrow> is_writable m \<and> \<not> is_executable m)"
  by (simp add: exec_mem_def allocate_def mmap_mmap_def is_writable_def is_executable_def RWX_def
        PROT_READ_def PROT_WRITE_def PROT_EXEC_def)

text \<open>
  Claim C4, amended. Allocation gives an anonymous, process-private region of the
  requested size that is readable, writable and executable from the start: every call
  passes \<open>PROT_READ | PROT_WRITE | PROT_EXEC\<close> (7) explicitly, and the scripts have no
  write-xor-execute mode.
\<close>

theorem allocate_gives_rwx_region:
  assumes "0 < len"
  shows "allocate len = Inr \<lparr>data = replicate len 0, pos = 0, prot = 7, flags = 34\<rparr> \<and>
     (case allocate len of
        Inl e \<Rightarrow> False
      | Inr m \<Rightarrow> is_readable m \<and> is_writable m \<and> is_executable m \<and>
          is_private m \<and> is_anonymous m \<and> length (data m) = len)"
  using assms
  by (simp add: allocate_def mmap_mmap_def is_readable_def is_writable_def is_executable_def
        is_private_def is_anonymous_def RWX_def PRIVATE_ANON_def
        PROT_READ_def PROT_WRITE_def PROT_EXEC_def MAP_PRIVATE_def MAP_ANONYMOUS_def)

text \<open>The instance of 4096 bytes, \<open>exec_mem\<close>.\<close>

theorem allocate_gives_rwx_region_witness:
  "(0::nat) < 4096 \<and> exec_mem = Inr \<lparr>data = replicate 4096 0, pos = 0, prot = 7, flags = 34\<rparr> \<and>
   (case exec_mem of
        Inl e \<Rightarrow> False
      | Inr m \<Rightarrow> is_writable m \<and> is_executable m)"
  using allocate_gives_rwx_region [of 4096] by (simp add: exec_mem_def split: sum.splits)

text \<open>
  Claim C6. A buffer written at the start of a fresh region that is large enough, and
  read back in full from offset 0 with no write in between (\<open>mmap.write\<close>,
  \<open>mmap.seek(0)\<close>, \<open>mmap.read\<close> of as many bytes as were written), is returned byte
  for byte. For validate\_mmap.py, which reads six bytes, every six-byte routine is read
  back exactly; and the region of \<open>execute_code\<close>, sized to the routine, holds
  exactly the routine's bytes.
\<close>

theorem read_back_equals_written_bytes:
  assumes "0 < C" "length code \<le> C"
  shows "and_then (mmap_mmap C pr fl) (\<lambda>mem.
       and_then (mmap_write mem code) (\<lambda>mem.
       and_then (mmap_seek mem 0) (\<lambda>mem.
       Inr (fst (mmap_read mem (length code)))))) = Inr code \<and>
     (length code = 6 \<longrightarrow> read_back code = Inr code) \<and>
     (code \<noteq> [] \<longrightarrow>
        execute_code_mem code = Inr \<lparr>data = code, pos = 0, prot = RWX, flags = PRIVATE_ANON\<rparr>)"
  using assms
  by (simp add: read_back_def execute_code_mem_def mmap_mmap_def mmap_write_def mmap_seek_def
        mmap_read_def Let_def)

text \<open>The instance of validate\_mmap.py: the six bytes of its routine in 4096.\<close>

theorem read_back_equals_written_bytes_witness:
  "(0::nat) < 4096 \<and> length deadbeef_code \<le> 4096 \<and> length deadbeef_code = 6 \<and>
   deadbeef_code \<noteq> [] \<and>
   and_then (mmap_mmap 4096 RWX PRIVATE_ANON) (\<lambda>mem.
     and_then (mmap_write mem deadbeef_code) (\<lambda>mem.
     and_then (mmap_seek mem 0) (\<lambda>mem.
     Inr (fst (mmap_read mem (length deadbeef_code)))))) = Inr [0xb8, 0xef, 0xbe, 0xad, 0xde, 0xc3] \<and>
   read_back deadbeef_code = Inr [0xb8, 0xef, 0xbe, 0xad, 0xde, 0xc3] \<and>
   execute_code_mem deadbeef_code =
     Inr \<lparr>data = [0xb8, 0xef, 0xbe, 0xad, 0xde, 0xc3], pos = 0, prot = RWX, flags = PRIVATE_ANON\<rparr>"
proof -
  have l: "length deadbeef_code = 6" "deadbeef_code \<noteq> []"
    by (simp_all add: deadbeef_code_def)
  have t: "and_then (mmap_mmap 4096 RWX PRIVATE_ANON) (\<lambda>mem.
       and_then (mmap_write mem deadbeef_code) (\<lambda>mem.
       and_then (mmap_seek mem 0) (\<lambda>mem.
       Inr (fst (mmap_read mem (length deadbeef_code)))))) = Inr deadbeef_code"
    and r: "read_back deadbeef_code = Inr deadbeef_code"
    and e: "execute_code_mem deadbeef_code =
       Inr \<lparr>data = deadbeef_code, pos = 0, prot = RWX, flags = PRIVATE_ANON\<rparr>"
    using read_back_equals_written_bytes [of 4096 deadbeef_code RWX PRIVATE_ANON] l
    by simp_all
  show ?thesis
    by (simp only: t r e) (simp add: deadbeef_code_def)
qed

text \<open>
  Claim C7. A buffer longer than the region is rejected by \<open>mmap.write\<close> with
  \<open>ValueError\<close>, for a region in any state and in particular for a fresh region of
  capacity \<open>C\<close>; and a write that succeeds leaves the size of the region as it was,
  so no byte lands past its end.
\<close>

theorem write_longer_than_region_rejected:
  "(length (data m) < length bs \<longrightarrow> mmap_write m bs = Inl ValueError) \<and>
   (0 < C \<and> C < length bs \<longrightarrow>
      and_then (mmap_mmap C pr fl) (\<lambda>mem. mmap_write mem bs) = Inl ValueError) \<and>
   (mmap_write m bs = Inr m' \<longrightarrow> length (data m') = length (data m))"
  by (auto simp: mmap_mmap_def mmap_write_def)

text \<open>Instances: seven bytes into a region of six are rejected, six are written.\<close>

theorem write_longer_than_region_rejected_witness:
  "length (data \<lparr>data = replicate 6 0, pos = 0, prot = RWX, flags = PRIVATE_ANON\<rparr>)
     < length (deadbeef_code @ [0x90]) \<and>
   mmap_write \<lparr>data = replicate 6 0, pos = 0, prot = RWX, flags = PRIVATE_ANON\<rparr>
     (deadbeef_code @ [0x90]) = Inl ValueError \<and>
   (0::nat) < 6 \<and> 6 < length (deadbeef_code @ [0x90]) \<and>
   and_then (mmap_mmap 6 RWX PRIVATE_ANON) (\<lambda>mem. mmap_write mem (deadbeef_code @ [0x90])) =
     Inl ValueError \<and>
   mmap_write \<lparr>data = replicate 6 0, pos = 0, prot = RWX, flags = PRIVATE_ANON\<rparr> deadbeef_code =
     Inr \<lparr>data = deadbeef_code, pos = 6, prot = RWX, flags = PRIVATE_ANON\<rparr> \<and>
   length (data \<lparr>data = deadbeef_code, pos = 6, prot = RWX, flags = PRIVATE_ANON\<rparr>) = 6"
proof -
  let ?m = "\<lparr>data = replicate 6 0, pos = 0, prot = RWX, flags = PRIVATE_ANON\<rparr>"
  let ?m' = "\<lparr>data = deadbeef_code, pos = 6, prot = RWX, flags = PRIVATE_ANON\<rparr>"
  have l: "length deadbeef_code = 6" by (simp add: deadbeef_code_def)
  have w: "mmap_write ?m deadbeef_code = Inr ?m'"
    by (simp add: mmap_write_def l)
  have a: "mmap_write ?m (deadbeef_code @ [0x90]) = Inl ValueError"
    and b: "and_then (mmap_mmap 6 RWX PRIVATE_ANON) (\<lambda>mem. mmap_write mem (deadbeef_code @ [0x90])) =
      Inl ValueError"
    using write_longer_than_region_rejected [of ?m "deadbeef_code @ [0x90]" 6 RWX PRIVATE_ANON ?m']
    by (simp_all add: l)
  have c: "length (data ?m') = 6"
    using write_longer_than_region_rejected [of ?m deadbeef_code 6 RWX PRIVATE_ANON ?m'] w
    by simp
  show ?thesis
    using a b c w by (simp add: l)
qed

section \<open>Calls after an overwrite\<close>

lemma mov_eax_fetch:
  "fetch (0xb8 # b0 # b1 # b2 # b3 # 0xc3 # rest) 0 = Some 0xb8"
  "fetch (0xb8 # b0 # b1 # b2 # b3 # 0xc3 # rest) (Suc 0) = Some b0"
  "fetch (0xb8 # b0 # b1 # b2 # b3 # 0xc3 # rest) 2 = Some b1"
  "fetch (0xb8 # b0 # b1 # b2 # b3 # 0xc3 # rest) (Suc (Suc 0)) = Some b1"
  "fetch (0xb8 # b0 # b1 # b2 # b3 # 0xc3 # rest) 3 = Some b2"
  "fetch (0xb8 # b0 # b1 # b2 # b3 # 0xc3 # rest) 4 = Some b3"
  "fetch (0xb8 # b0 # b1 # b2 # b3 # 0xc3 # rest) 5 = Some 0xc3"
  by (simp_all add: fetch_def)

lemma mov_eax_step0:
  "ip s = 0 \<Longrightarrow> step (0xb8 # b0 # b1 # b2 # b3 # 0xc3 # rest) s =
     Next (s\<lparr>eax := imm32 b0 b1 b2 b3, ip := 5\<rparr>)"
  by (simp add: step_def mov_eax_fetch advance_def set_reg_def)

lemma mov_eax_step5:
  "ip s = 5 \<Longrightarrow> step (0xb8 # b0 # b1 # b2 # b3 # 0xc3 # rest) s = Ret s"
  by (simp add: step_def mov_eax_fetch)

lemma mov_eax_ret:
  "ip s = 0 \<Longrightarrow>
   exec (Suc (Suc k)) (0xb8 # b0 # b1 # b2 # b3 # 0xc3 # rest) s = Inr (imm32 b0 b1 b2 b3)"
  by (simp add: mov_eax_step0 mov_eax_step5)

lemma call0_mov_eax:
  assumes "data m = 0xb8 # b0 # b1 # b2 # b3 # 0xc3 # rest" "prot m = RWX"
  shows "call0 (Suc (Suc k)) s0 m = Inr (imm32 b0 b1 b2 b3)"
proof -
  have "exec (Suc (Suc k)) (data m) (s0\<lparr>ip := 0\<rparr>) = Inr (imm32 b0 b1 b2 b3)"
    unfolding assms(1) by (rule mov_eax_ret) simp
  then show ?thesis
    using RWX_executable [OF assms(2)] by (simp add: call0_def)
qed

lemma call0_le_bytes32:
  assumes "data m = 0xb8 # le_bytes32 v @ 0xc3 # rest" "prot m = RWX"
    and "0 \<le> v" "v < 4294967296"
  shows "call0 (Suc (Suc k)) s0 m = Inr (word_of_int v)"
proof -
  have "call0 (Suc (Suc k)) s0 m =
      Inr (imm32 (word_of_int v) (word_of_int (v div 256)) (word_of_int (v div 65536))
           (word_of_int (v div 16777216)))"
    by (rule call0_mov_eax [where rest = rest]) (simp_all add: assms(1,2) le_bytes32_eq)
  then show ?thesis
    by (simp only: imm32_le_bytes32 [OF assms(3,4)])
qed

lemma patch_immediate_eq:
  assumes "data m = 0xb8 # bs @ 0xc3 # rest" "length bs = 4" "0 \<le> v" "v < 4294967296"
  shows "patch_immediate m v =
     Inr (m\<lparr>data := 0xb8 # le_bytes32 v @ 0xc3 # rest, pos := 5\<rparr>)"
  using assms by (simp add: patch_immediate_def struct_pack_I_def mmap_seek_def mmap_write_def)

lemma patch_loop_eq:
  assumes "data m = 0xb8 # le_bytes32 cur @ 0xc3 # rest" "prot m = RWX"
    and "0 \<le> cur" "cur < 2147483648"
    and "list_all (\<lambda>i. 0 \<le> i \<and> i < 21474836) xs"
  shows "\<exists>m'. patch_loop (Suc (Suc k)) caller xs m results =
           Inr (m', results @ butlast (cur # map (\<lambda>i. (i + 1) * 100) xs))
         \<and> data m' = 0xb8 # le_bytes32 (last (cur # map (\<lambda>i. (i + 1) * 100) xs)) @ 0xc3 # rest
         \<and> prot m' = RWX"
  using assms
proof (induction xs arbitrary: m cur results)
  case Nil
  then show ?case by simp
next
  case (Cons i xs)
  let ?v = "(i + 1) * 100"
  let ?m1 = "m\<lparr>data := 0xb8 # le_bytes32 ?v @ 0xc3 # rest, pos := 5\<rparr>"
  have i: "0 \<le> i" "i < 21474836" and xs: "list_all (\<lambda>i. 0 \<le> i \<and> i < 21474836) xs"
    using Cons.prems(5) by simp_all
  have v: "0 \<le> ?v" "?v < 2147483648" using i by simp_all
  have c: "dynamic_func (Suc (Suc k)) (caller (length results)) m = Inr cur"
    using call0_le_bytes32 [OF Cons.prems(1,2), of k "caller (length results)"] Cons.prems(3,4)
    by (simp add: dynamic_func_def c_int_def sint32_of_int)
  have p: "patch_immediate m ?v = Inr ?m1"
    using v by (intro patch_immediate_eq [OF Cons.prems(1)]) simp_all
  have "\<exists>m'. patch_loop (Suc (Suc k)) caller xs ?m1 (results @ [cur]) =
           Inr (m', (results @ [cur]) @ butlast (?v # map (\<lambda>i. (i + 1) * 100) xs))
         \<and> data m' = 0xb8 # le_bytes32 (last (?v # map (\<lambda>i. (i + 1) * 100) xs)) @ 0xc3 # rest
         \<and> prot m' = RWX"
  proof (rule Cons.IH)
    show "data ?m1 = 0xb8 # le_bytes32 ?v @ 0xc3 # rest" by simp
    show "prot ?m1 = RWX" using Cons.prems(2) by simp
    show "0 \<le> ?v" "?v < 2147483648" using v by simp_all
    show "list_all (\<lambda>i. 0 \<le> i \<and> i < 21474836) xs" by (rule xs)
  qed
  then obtain m' where
    r: "patch_loop (Suc (Suc k)) caller xs ?m1 (results @ [cur]) =
          Inr (m', (results @ [cur]) @ butlast (?v # map (\<lambda>i. (i + 1) * 100) xs))"
    and d: "data m' = 0xb8 # le_bytes32 (last (?v # map (\<lambda>i. (i + 1) * 100) xs)) @ 0xc3 # rest"
    and e: "prot m' = RWX"
    by blast
  have "patch_loop (Suc (Suc k)) caller (i # xs) m results =
      patch_loop (Suc (Suc k)) caller xs ?m1 (results @ [cur])"
    by (simp only: patch_loop.simps c p sum.case)
  with r d e show ?case by simp
qed

lemma upto_0_9: "[0..9] = [0, 1, 2, 3, 4, 5, 6, 7, 8, 9 :: int]"
  by code_simp

lemma part5_eq:
  "part5 (Suc (Suc k)) caller = Inr [0, 100, 200, 300, 400, 500, 600, 700, 800, 900, 1000]"
proof -
  let ?fresh = "\<lparr>data = replicate 4096 0, pos = 0, prot = RWX, flags = PRIVATE_ANON\<rparr>"
  let ?m0 = "\<lparr>data = base_code @ replicate 4090 0, pos = 6, prot = RWX, flags = PRIVATE_ANON\<rparr>"
  let ?f = "\<lambda>i::int. (i + 1) * 100"
  have w1: "mmap_mmap 4096 RWX PRIVATE_ANON = Inr ?fresh"
    by (simp add: mmap_mmap_def)
  have w2: "mmap_write ?fresh base_code = Inr ?m0"
    by (simp add: mmap_write_def base_code_def)
  have d0: "data ?m0 = 0xb8 # le_bytes32 0 @ 0xc3 # replicate 4090 0"
    by (simp add: base_code_def le_bytes32_eq)
  have la: "list_all (\<lambda>i. 0 \<le> i \<and> i < 21474836) [0..9]"
    by (simp add: upto_0_9)
  have bl: "[] @ butlast (0 # map ?f [0..9]) = [0, 100, 200, 300, 400, 500, 600, 700, 800, 900]"
    by (simp add: upto_0_9)
  have l: "last (0 # map ?f [0..9]) = 1000" by (simp add: upto_0_9)
  have "\<exists>m'. patch_loop (Suc (Suc k)) caller [0..9] ?m0 [] = Inr (m', [] @ butlast (0 # map ?f [0..9]))
      \<and> data m' = 0xb8 # le_bytes32 (last (0 # map ?f [0..9])) @ 0xc3 # replicate 4090 0
      \<and> prot m' = RWX"
    by (rule patch_loop_eq [OF d0 _ _ _ la]) simp_all
  then obtain m' where
    r: "patch_loop (Suc (Suc k)) caller [0..9] ?m0 [] =
          Inr (m', [0, 100, 200, 300, 400, 500, 600, 700, 800, 900])"
    and d: "data m' = 0xb8 # le_bytes32 1000 @ 0xc3 # replicate 4090 0"
    and e: "prot m' = RWX"
    unfolding bl l by blast
  have c: "dynamic_func (Suc (Suc k)) s m' = Inr 1000" for s
  proof -
    have "call0 (Suc (Suc k)) s m' = Inr (word_of_int 1000)"
      using d e by (intro call0_le_bytes32) simp_all
    then show ?thesis
      by (simp add: dynamic_func_def c_int_def)
  qed
  show ?thesis
    unfolding part5_def by (simp add: w1 w2 r c)
qed

lemma part4_eq: "part4 (Suc (Suc k)) s1 s2 = Inr (42, 1337)"
proof -
  have i1: "imm32 0x2a 0 0 0 = 42" and i2: "imm32 0x39 0x05 0 0 = 1337"
    by (simp_all add: imm32_def)
  have c1: "func (Suc (Suc k)) s m = Inr 42"
    if "data m = shellcode_return_42 @ r" "prot m = RWX" for s m r
    using call0_mov_eax [of m "0x2a" 0 0 0 r k s] that
    by (simp add: func_def shellcode_return_42_def i1 c_int_def)
  have c2: "func (Suc (Suc k)) s m = Inr 1337"
    if "data m = shellcode_return_1337 @ r" "prot m = RWX" for s m r
    using call0_mov_eax [of m "0x39" "0x05" 0 0 r k s] that
    by (simp add: func_def shellcode_return_1337_def i2 c_int_def)
  let ?fresh = "\<lparr>data = replicate 4096 0, pos = 0, prot = RWX, flags = PRIVATE_ANON\<rparr>"
  let ?a = "\<lparr>data = shellcode_return_42 @ replicate 4090 0, pos = 6, prot = RWX,
      flags = PRIVATE_ANON\<rparr>"
  let ?m1 = "\<lparr>data = shellcode_return_42 @ replicate 4090 0, pos = 0, prot = RWX,
      flags = PRIVATE_ANON\<rparr>"
  let ?b = "\<lparr>data = shellcode_return_1337 @ replicate 4090 0, pos = 6, prot = RWX,
      flags = PRIVATE_ANON\<rparr>"
  let ?m2 = "\<lparr>data = shellcode_return_1337 @ replicate 4090 0, pos = 0, prot = RWX,
      flags = PRIVATE_ANON\<rparr>"
  have w1: "mmap_mmap 4096 RWX PRIVATE_ANON = Inr ?fresh"
    by (simp add: mmap_mmap_def)
  have w2: "mmap_write ?fresh shellcode_return_42 = Inr ?a"
    by (simp add: mmap_write_def shellcode_return_42_def)
  have w3: "mmap_seek ?a 0 = Inr ?m1"
    by (simp add: mmap_seek_def)
  have w4: "mmap_seek ?m1 0 = Inr ?m1"
    by (simp add: mmap_seek_def)
  have w5: "mmap_write ?m1 shellcode_return_1337 = Inr ?b"
    by (simp add: mmap_write_def shellcode_return_42_def shellcode_return_1337_def)
  have w6: "mmap_seek ?b 0 = Inr ?m2"
    by (simp add: mmap_seek_def)
  have r1: "func (Suc (Suc k)) s1 ?m1 = Inr 42" by (rule c1 [where r = "replicate 4090 0"]) simp_all
  have r2: "func (Suc (Suc k)) s2 ?m2 = Inr 1337" by (rule c2 [where r = "replicate 4090 0"]) simp_all
  show ?thesis
    unfolding part4_def by (simp add: w1 w2 w3 w4 w5 w6 r1 r2)
qed

text \<open>
  Claim C3. Part 5 of self\_modify.py returns 0 before the first patch and then exactly
  100, 200, ..., 1000, one value per call after each in-place patch of the immediate;
  part 4 returns 42 and, after the overwrite, 1337 through the same function pointer.
  In general, for a region that holds \<open>mov eax, imm32; ret\<close>, a call made after the
  immediate has been patched to \<open>v\<close> returns \<open>v\<close> (read as \<open>c_int\<close>): the call
  runs the bytes the region holds when it is made. Two instructions of fuel suffice.
\<close>

theorem call_after_overwrite_sees_new_bytes:
  assumes "data m = 0xb8 # bs @ 0xc3 # rest" "length bs = 4" "prot m = RWX"
    and "0 \<le> v" "v < 4294967296"
  shows "part5 (Suc (Suc k)) caller = Inr [0, 100, 200, 300, 400, 500, 600, 700, 800, 900, 1000] \<and>
     part4 (Suc (Suc k)) s1 s2 = Inr (42, 1337) \<and>
     (case patch_immediate m v of
        Inl e \<Rightarrow> False
      | Inr m' \<Rightarrow> dynamic_func (Suc (Suc k)) s0 m' = Inr (c_int (word_of_int v)))"
proof -
  let ?m' = "m\<lparr>data := 0xb8 # le_bytes32 v @ 0xc3 # rest, pos := 5\<rparr>"
  have p: "patch_immediate m v = Inr ?m'"
    by (rule patch_immediate_eq [OF assms(1,2,4,5)])
  have "call0 (Suc (Suc k)) s0 ?m' = Inr (word_of_int v)"
    using assms(3,4,5) by (intro call0_le_bytes32) simp_all
  then have c: "dynamic_func (Suc (Suc k)) s0 ?m' = Inr (c_int (word_of_int v))"
    by (simp add: dynamic_func_def)
  show ?thesis
    by (simp only: part5_eq part4_eq p c sum.case simp_thms)
qed

text \<open>An instance: the region of part 5 after the first write, patched to 300.\<close>

theorem call_after_overwrite_sees_new_bytes_witness:
  "data \<lparr>data = base_code @ replicate 4090 0, pos = 6, prot = RWX, flags = PRIVATE_ANON\<rparr> =
     0xb8 # [0, 0, 0, 0] @ 0xc3 # replicate 4090 0 \<and>
   length [0, 0, 0, 0 :: byte] = 4 \<and>
   prot \<lparr>data = base_code @ replicate 4090 0, pos = 6, prot = RWX, flags = PRIVATE_ANON\<rparr> = RWX \<and>
   (0::int) \<le> 300 \<and> (300::int) < 4294967296 \<and>
   part5 (Suc (Suc 0)) (\<lambda>j. sample_caller) =
     Inr [0, 100, 200, 300, 400, 500, 600, 700, 800, 900, 1000] \<and>
   patch_immediate \<lparr>data = base_code @ replicate 4090 0, pos = 6, prot = RWX, flags = PRIVATE_ANON\<rparr> 300 =
     Inr \<lparr>data = [0xb8, 0x2c, 0x01, 0x00, 0x00, 0xc3] @ replicate 4090 0, pos = 5, prot = RWX,
          flags = PRIVATE_ANON\<rparr> \<and>
   dynamic_func (Suc (Suc 0)) sample_caller
     \<lparr>data = [0xb8, 0x2c, 0x01, 0x00, 0x00, 0xc3] @ replicate 4090 0, pos = 5, prot = RWX,
      flags = PRIVATE_ANON\<rparr> = Inr 300"
proof -
  let ?m = "\<lparr>data = base_code @ replicate 4090 0, pos = 6, prot = RWX, flags = PRIVATE_ANON\<rparr>"
  let ?m' = "\<lparr>data = [0xb8, 0x2c, 0x01, 0x00, 0x00, 0xc3] @ replicate 4090 0, pos = 5, prot = RWX,
          flags = PRIVATE_ANON\<rparr>"
  have d: "data ?m = 0xb8 # [0, 0, 0, 0] @ 0xc3 # replicate 4090 0"
    by (simp add: base_code_def)
  have p: "patch_immediate ?m 300 = Inr ?m'"
    using patch_immediate_eq [OF d, of 300] by (simp add: le_bytes32_eq)
  have t: "part5 (Suc (Suc 0)) (\<lambda>j. sample_caller) =
       Inr [0, 100, 200, 300, 400, 500, 600, 700, 800, 900, 1000] \<and>
     part4 (Suc (Suc 0)) sample_caller sample_caller = Inr (42, 1337) \<and>
     (case patch_immediate ?m 300 of
        Inl e \<Rightarrow> False
      | Inr m' \<Rightarrow> dynamic_func (Suc (Suc 0)) sample_caller m' = Inr (c_int (word_of_int 300)))"
    by (rule call_after_overwrite_sees_new_bytes [OF d]) simp_all
  have c: "dynamic_func (Suc (Suc 0)) sample_caller ?m' = Inr 300"
    using t unfolding p by (simp add: c_int_def)
  show ?thesis
    using d p t c by simp
qed

section \<open>The generated routine for \<open>a + b * c\<close>\<close>

lemma and_ffffffff: "(a::int) AND 4294967295 = a mod 4294967296"
proof -
  have "a AND 4294967295 = a AND mask 32" by (simp add: mask_eq_exp_minus_1)
  also have "\<dots> = take_bit 32 a" by (simp only: take_bit_eq_mask)
  also have "\<dots> = a mod 4294967296" by (simp add: take_bit_eq_mod)
  finally show ?thesis .
qed

lemma word32_of_int_mod: "(word_of_int (a mod 4294967296) :: u32) = word_of_int a"
  by (simp add: word_of_int_eq_iff take_bit_eq_mod)

lemma jit_compile_add_mul_eq:
  "jit_compile_add_mul a b c =
     Inr (0xb8 # le_bytes32 (a mod 4294967296) @ 0xb9 # le_bytes32 (b mod 4294967296) @
          0xba # le_bytes32 (c mod 4294967296) @ [0x0f, 0xaf, 0xca, 0x01, 0xc8, 0xc3])"
  by (simp add: jit_compile_add_mul_def and_ffffffff struct_pack_I_def bytearray_extend_def)

lemma addmul_fetch:
  "fetch (addmul_image a0 a1 a2 a3 b0 b1 b2 b3 c0 c1 c2 c3 rest) 0 = Some 0xb8"
  "fetch (addmul_image a0 a1 a2 a3 b0 b1 b2 b3 c0 c1 c2 c3 rest) (Suc 0) = Some a0"
  "fetch (addmul_image a0 a1 a2 a3 b0 b1 b2 b3 c0 c1 c2 c3 rest) (Suc (Suc 0)) = Some a1"
  "fetch (addmul_image a0 a1 a2 a3 b0 b1 b2 b3 c0 c1 c2 c3 rest) 2 = Some a1"
  "fetch (addmul_image a0 a1 a2 a3 b0 b1 b2 b3 c0 c1 c2 c3 rest) 3 = Some a2"
  "fetch (addmul_image a0 a1 a2 a3 b0 b1 b2 b3 c0 c1 c2 c3 rest) 4 = Some a3"
  "fetch (addmul_image a0 a1 a2 a3 b0 b1 b2 b3 c0 c1 c2 c3 rest) 5 = Some 0xb9"
  "fetch (addmul_image a0 a1 a2 a3 b0 b1 b2 b3 c0 c1 c2 c3 rest) 6 = Some b0"
  "fetch (addmul_image a0 a1 a2 a3 b0 b1 b2 b3 c0 c1 c2 c3 rest) 7 = Some b1"
  "fetch (addmul_image a0 a1 a2 a3 b0 b1 b2 b3 c0 c1 c2 c3 rest) 8 = Some b2"
  "fetch (addmul_image a0 a1 a2 a3 b0 b1 b2 b3 c0 c1 c2 c3 rest) 9 = Some b3"
  "fetch (addmul_image a0 a1 a2 a3 b0 b1 b2 b3 c0 c1 c2 c3 rest) 10 = Some 0xba"
  "fetch (addmul_image a0 a1 a2 a3 b0 b1 b2 b3 c0 c1 c2 c3 rest) 11 = Some c0"
  "fetch (addmul_image a0 a1 a2 a3 b0 b1 b2 b3 c0 c1 c2 c3 rest) 12 = Some c1"
  "fetch (addmul_image a0 a1 a2 a3 b0 b1 b2 b3 c0 c1 c2 c3 rest) 13 = Some c2"
  "fetch (addmul_image a0 a1 a2 a3 b0 b1 b2 b3 c0 c1 c2 c3 rest) 14 = Some c3"
  "fetch (addmul_image a0 a1 a2 a3 b0 b1 b2 b3 c0 c1 c2 c3 rest) 15 = Some 0x0f"
  "fetch (addmul_image a0 a1 a2 a3 b0 b1 b2 b3 c0 c1 c2 c3 rest) 16 = Some 0xaf"
  "fetch (addmul_image a0 a1 a2 a3 b0 b1 b2 b3 c0 c1 c2 c3 rest) 17 = Some 0xca"
  "fetch (addmul_image a0 a1 a2 a3 b0 b1 b2 b3 c0 c1 c2 c3 rest) 18 = Some 0x01"
  "fetch (addmul_image a0 a1 a2 a3 b0 b1 b2 b3 c0 c1 c2 c3 rest) 19 = Some 0xc8"
  "fetch (addmul_image a0 a1 a2 a3 b0 b1 b2 b3 c0 c1 c2 c3 rest) 20 = Some 0xc3"
  by (simp_all add: fetch_def)

lemma imul_flags_regs [simp]:
  "eax (imul_flags a b s) = eax s" "ecx (imul_flags a b s) = ecx s"
  "edx (imul_flags a b s) = edx s" "ip (imul_flags a b s) = ip s"
  by (simp_all add: imul_flags_def)

lemma addmul_steps:
  "ip s = 0 \<Longrightarrow> step (addmul_image a0 a1 a2 a3 b0 b1 b2 b3 c0 c1 c2 c3 rest) s =
     Next (s\<lparr>eax := imm32 a0 a1 a2 a3, ip := 5\<rparr>)"
  "ip s = 5 \<Longrightarrow> step (addmul_image a0 a1 a2 a3 b0 b1 b2 b3 c0 c1 c2 c3 rest) s =
     Next (s\<lparr>ecx := imm32 b0 b1 b2 b3, ip := 10\<rparr>)"
  "ip s = 10 \<Longrightarrow> step (addmul_image a0 a1 a2 a3 b0 b1 b2 b3 c0 c1 c2 c3 rest) s =
     Next (s\<lparr>edx := imm32 c0 c1 c2 c3, ip := 15\<rparr>)"
  "ip s = 15 \<Longrightarrow> step (addmul_image a0 a1 a2 a3 b0 b1 b2 b3 c0 c1 c2 c3 rest) s =
     Next (imul_flags (ecx s) (edx s) s\<lparr>ecx := ecx s * edx s, ip := 18\<rparr>)"
  "ip s = 18 \<Longrightarrow> step (addmul_image a0 a1 a2 a3 b0 b1 b2 b3 c0 c1 c2 c3 rest) s =
     Next (add_flags (eax s) (ecx s) s\<lparr>eax := eax s + ecx s, ip := 20\<rparr>)"
  "ip s = 20 \<Longrightarrow> step (addmul_image a0 a1 a2 a3 b0 b1 b2 b3 c0 c1 c2 c3 rest) s = Ret s"
  by (simp_all add: cpu_simps addmul_fetch)

lemma addmul_exec:
  "ip s = 0 \<Longrightarrow>
   exec (Suc (Suc (Suc (Suc (Suc (Suc k)))))) (addmul_image a0 a1 a2 a3 b0 b1 b2 b3 c0 c1 c2 c3 rest) s =
     Inr (imm32 a0 a1 a2 a3 + imm32 b0 b1 b2 b3 * imm32 c0 c1 c2 c3)"
  by (simp add: addmul_steps)

lemma mod32_range: "0 \<le> (a::int) mod 4294967296 \<and> a mod 4294967296 < 4294967296"
  by simp

lemma jit_func_eq:
  assumes "prot m = RWX" "21 \<le> length (data m)"
  shows "jit_func (6 + k) s0 m a b c =
     Inr (sint (word_of_int (a + b * c) :: u32),
          m\<lparr>data := 0xb8 # le_bytes32 (a mod 4294967296) @ 0xb9 # le_bytes32 (b mod 4294967296) @
               0xba # le_bytes32 (c mod 4294967296) @ [0x0f, 0xaf, 0xca, 0x01, 0xc8, 0xc3] @
               drop 21 (data m),
            pos := 21\<rparr>)"
proof -
  let ?A = "a mod 4294967296" and ?B = "b mod 4294967296" and ?C = "c mod 4294967296"
  let ?code = "0xb8 # le_bytes32 ?A @ 0xb9 # le_bytes32 ?B @ 0xba # le_bytes32 ?C @
      [0x0f, 0xaf, 0xca, 0x01, 0xc8, 0xc3]"
  let ?m' = "m\<lparr>data := ?code @ drop 21 (data m), pos := 21\<rparr>"
  have sk: "mmap_seek m 0 = Inr (m\<lparr>pos := 0\<rparr>)"
    by (simp add: mmap_seek_def)
  have wr: "mmap_write (m\<lparr>pos := 0\<rparr>) ?code = Inr ?m'"
    using assms(2) by (simp add: mmap_write_def)
  have ex: "is_executable ?m'"
    using assms(1) by (intro RWX_executable) simp
  have "exec (Suc (Suc (Suc (Suc (Suc (Suc k)))))) (data ?m') (s0\<lparr>ip := 0\<rparr>) =
      Inr (imm32 (word_of_int ?A) (word_of_int (?A div 256)) (word_of_int (?A div 65536))
             (word_of_int (?A div 16777216))
         + imm32 (word_of_int ?B) (word_of_int (?B div 256)) (word_of_int (?B div 65536))
             (word_of_int (?B div 16777216))
         * imm32 (word_of_int ?C) (word_of_int (?C div 256)) (word_of_int (?C div 65536))
             (word_of_int (?C div 16777216)))"
    unfolding le_bytes32_eq
    using addmul_exec [of "s0\<lparr>ip := 0\<rparr>" k _ _ _ _ _ _ _ _ _ _ _ _ "drop 21 (data m)"]
    by simp
  also have "\<dots> = Inr (word_of_int ?A + word_of_int ?B * word_of_int ?C)"
    using mod32_range [of a] mod32_range [of b] mod32_range [of c]
    by (simp only: imm32_le_bytes32)
  also have "\<dots> = Inr (word_of_int (a + b * c))"
    by (simp only: word32_of_int_mod) simp
  finally have run: "exec (Suc (Suc (Suc (Suc (Suc (Suc k)))))) (data ?m') (s0\<lparr>ip := 0\<rparr>) =
      Inr (word_of_int (a + b * c))" .
  have "6 + k = Suc (Suc (Suc (Suc (Suc (Suc k)))))" by simp
  then have c0: "call0 (6 + k) s0 ?m' = Inr (word_of_int (a + b * c))"
    using run ex by (simp only: call0_def if_True)
  show ?thesis
    using sk wr c0 by (simp add: jit_func_def jit_compile_add_mul_eq c_int_def)
qed

text \<open>
  Claim C10. For all integers \<open>a\<close>, \<open>b\<close>, \<open>c\<close> the generator emits the three
  immediates reduced modulo \<open>2 ^ 32\<close>, and the routine, written at offset 0 of an
  executable region of at least 21 bytes and called, returns \<open>a + b * c\<close> modulo
  \<open>2 ^ 32\<close> read as a signed 32-bit value, within six instructions; when \<open>a\<close>,
  \<open>b\<close>, \<open>c\<close> are non-negative and \<open>a + b * c\<close> fits in a signed 32-bit integer
  the result is \<open>a + b * c\<close> itself.
\<close>

theorem jit_add_mul_returns_wrapped_sum:
  assumes "prot m = RWX" "21 \<le> length (data m)"
  shows "jit_compile_add_mul a b c =
       Inr (0xb8 # le_bytes32 (a mod 4294967296) @ 0xb9 # le_bytes32 (b mod 4294967296) @
            0xba # le_bytes32 (c mod 4294967296) @ [0x0f, 0xaf, 0xca, 0x01, 0xc8, 0xc3]) \<and>
     map_sum id fst (jit_func (6 + k) s0 m a b c) = Inr (sint (word_of_int (a + b * c) :: u32)) \<and>
     (0 \<le> a \<and> 0 \<le> b \<and> 0 \<le> c \<and> a + b * c < 2147483648 \<longrightarrow>
        map_sum id fst (jit_func (6 + k) s0 m a b c) = Inr (a + b * c))"
proof -
  have r: "map_sum id fst (jit_func (6 + k) s0 m a b c) = Inr (sint (word_of_int (a + b * c) :: u32))"
    by (simp add: jit_func_eq [OF assms])
  have "sint (word_of_int (a + b * c) :: u32) = a + b * c"
    if "0 \<le> a" "0 \<le> b" "0 \<le> c" "a + b * c < 2147483648"
  proof -
    have "0 \<le> b * c" using that by simp
    then have "- 2147483648 \<le> a + b * c" using that by linarith
    then show ?thesis using that by (intro sint32_of_int)
  qed
  with r show ?thesis
    by (simp only: jit_compile_add_mul_eq) simp
qed

text \<open>The first test case of the script, \<open>1 + 2 * 3\<close>, on a fresh region.\<close>

theorem jit_add_mul_returns_wrapped_sum_witness:
  "prot \<lparr>data = replicate 4096 0, pos = 0, prot = RWX, flags = PRIVATE_ANON\<rparr> = RWX \<and>
   21 \<le> length (data \<lparr>data = replicate 4096 0, pos = 0, prot = RWX, flags = PRIVATE_ANON\<rparr>) \<and>
   (0::int) \<le> 1 \<and> (0::int) \<le> 2 \<and> (0::int) \<le> 3 \<and> (1::int) + 2 * 3 < 2147483648 \<and>
   map_sum id fst (jit_func 6 sample_caller
     \<lparr>data = replicate 4096 0, pos = 0, prot = RWX, flags = PRIVATE_ANON\<rparr> 1 2 3) = Inr 7"
  using jit_add_mul_returns_wrapped_sum
    [of "\<lparr>data = replicate 4096 0, pos = 0, prot = RWX, flags = PRIVATE_ANON\<rparr>" 1 2 3 0 sample_caller]
  by simp

end
